theory Spec2Isabelle
  imports Complex_Main "HOL-Library.Monad_Syntax"
begin

section \<open>Numbers of the host language\<close>

text \<open>
  The class computes with the host's double-precision numbers. They are modelled as
  real numbers: rounding is not modelled. A value that is not a finite number
  (NaN, an infinity, an Invalid Date) is \<open>None\<close>. Every division and every
  function with a restricted domain returns \<open>None\<close> where the host returns such a
  value, so no HOL convention (\<open>x / 0 = 0\<close>, \<open>arccos\<close> or \<open>tan\<close> outside their
  domains) is ever read as a result of the program.
\<close>

definition js_div :: "real \<Rightarrow> real \<Rightarrow> real option" where
  "js_div a b = (if b = 0 then None else Some (a / b))"

definition js_acos :: "real \<Rightarrow> real option" where
  "js_acos v = (if - 1 \<le> v \<and> v \<le> 1 then Some (arccos v) else None)"

definition js_tan :: "real \<Rightarrow> real option" where
  "js_tan v = (if cos v = 0 then None else Some (sin v / cos v))"

definition js_atan2 :: "real \<Rightarrow> real \<Rightarrow> real" where
  "js_atan2 b a =
     (if 0 < a then arctan (b / a)
      else if a < 0 then (if 0 \<le> b then arctan (b / a) + pi else arctan (b / a) - pi)
      else if 0 < b then pi / 2
      else if b < 0 then - (pi / 2)
      else 0)"

definition js_trunc :: "real \<Rightarrow> int" where
  "js_trunc v = (if 0 \<le> v then \<lfloor>v\<rfloor> else \<lceil>v\<rceil>)"

section \<open>The host's Date\<close>

text \<open>
  A valid Date is its time value, the milliseconds since the epoch, an \<open>int\<close>; an
  Invalid Date is \<open>None\<close>. The calendar follows the definitions of the language
  standard (Day, DayFromYear, YearFromTime, MonthFromTime, DateFromTime, MakeDay,
  TimeClip, LocalTime, UTC). \<open>host_now\<close> is the time value of \<open>new Date()\<close>. The
  host's zone is given by the two offsets, in minutes, that the standard leaves to the
  host: \<open>host_tzo h t\<close> is \<open>getTimezoneOffset()\<close> of the Date with the time value
  \<open>t\<close>, by which the host reads \<open>t\<close> as a local time (LocalTime); \<open>host_local_tzo h t\<close>
  is the offset by which it reads the local time value \<open>t\<close> back as a time value
  (UTC). In a zone with daylight saving both change with \<open>t\<close>.
\<close>

record host =
  host_now :: int
  host_tzo :: "int \<Rightarrow> int"
  host_local_tzo :: "int \<Rightarrow> int"

text \<open>The exceptions the class can raise: \<open>toISOString\<close> of an Invalid Date, and
  an assignment to a name that no scope declares (a class body is strict code).\<close>

datatype error = RangeError | ReferenceError

definition time_clip :: "int \<Rightarrow> int option" where
  "time_clip t = (if \<bar>t\<bar> > 8640000000000000 then None else Some t)"

definition day :: "int \<Rightarrow> int" where
  "day t = t div 86400000"

definition day_from_year :: "int \<Rightarrow> int" where
  "day_from_year y =
     365 * (y - 1970) + (y - 1969) div 4 - (y - 1901) div 100 + (y - 1601) div 400"

definition year_from_day :: "int \<Rightarrow> int" where
  "year_from_day n =
     (let y = 1970 + (400 * n) div 146097
      in if n < day_from_year y then y - 1
         else if day_from_year (y + 1) \<le> n then y + 1
         else y)"

definition in_leap_year :: "int \<Rightarrow> bool" where
  "in_leap_year y = ((y mod 4 = 0 \<and> y mod 100 \<noteq> 0) \<or> y mod 400 = 0)"

definition month_start :: "bool \<Rightarrow> int \<Rightarrow> int" where
  "month_start leap m =
     (if m \<le> 0 then 0
      else if m = 1 then 31
      else (if leap then 1 else 0) +
        (if m = 2 then 59 else if m = 3 then 90 else if m = 4 then 120
         else if m = 5 then 151 else if m = 6 then 181 else if m = 7 then 212
         else if m = 8 then 243 else if m = 9 then 273 else if m = 10 then 304
         else 334))"

definition month_from_day :: "bool \<Rightarrow> int \<Rightarrow> int" where
  "month_from_day leap d =
     (let l = (if leap then 1 else 0)
      in if d < 31 then 0
         else if d < 59 + l then 1
         else if d < 90 + l then 2
         else if d < 120 + l then 3
         else if d < 151 + l then 4
         else if d < 181 + l then 5
         else if d < 212 + l then 6
         else if d < 243 + l then 7
         else if d < 273 + l then 8
         else if d < 304 + l then 9
         else if d < 334 + l then 10
         else 11)"

definition day_within_year :: "int \<Rightarrow> int" where
  "day_within_year n = n - day_from_year (year_from_day n)"

definition month_of_day :: "int \<Rightarrow> int" where
  "month_of_day n = month_from_day (in_leap_year (year_from_day n)) (day_within_year n)"

definition date_of_day :: "int \<Rightarrow> int" where
  "date_of_day n =
     day_within_year n - month_start (in_leap_year (year_from_day n)) (month_of_day n) + 1"

definition make_day :: "int \<Rightarrow> int \<Rightarrow> int \<Rightarrow> int" where
  "make_day yr mo dt =
     (let ym = yr + mo div 12; mn = mo mod 12
      in day_from_year ym + month_start (in_leap_year ym) mn + dt - 1)"

definition local_time :: "host \<Rightarrow> int \<Rightarrow> int" where
  "local_time h t = t - host_tzo h t * 60000"

definition utc_time :: "host \<Rightarrow> int \<Rightarrow> int" where
  "utc_time h t = t + host_local_tzo h t * 60000"

definition getFullYear :: "host \<Rightarrow> int \<Rightarrow> int" where
  "getFullYear h t = year_from_day (day (local_time h t))"

definition getMonth :: "host \<Rightarrow> int \<Rightarrow> int" where
  "getMonth h t = month_of_day (day (local_time h t))"

definition getDate :: "host \<Rightarrow> int \<Rightarrow> int" where
  "getDate h t = date_of_day (day (local_time h t))"

definition getHours :: "host \<Rightarrow> int \<Rightarrow> int" where
  "getHours h t = (local_time h t div 3600000) mod 24"

definition getMinutes :: "host \<Rightarrow> int \<Rightarrow> int" where
  "getMinutes h t = (local_time h t div 60000) mod 60"

definition getSeconds :: "host \<Rightarrow> int \<Rightarrow> int" where
  "getSeconds h t = (local_time h t div 1000) mod 60"

text \<open>
  \<open>new Date(year, month, date, 0, 0, 0)\<close>: local midnight of the given civil day. A
  year from 0 to 99 stands for 1900 + year, as the standard has it.
\<close>

definition new_Date :: "host \<Rightarrow> int \<Rightarrow> int \<Rightarrow> int \<Rightarrow> int option" where
  "new_Date h yr mo dt =
     time_clip (utc_time h
       (make_day (if 0 \<le> yr \<and> yr \<le> 99 then 1900 + yr else yr) mo dt * 86400000))"

text \<open>\<open>setMinutes\<close> and \<open>setSeconds\<close> replace one field of the local time and read
  the result back as a time value.\<close>

definition setMinutes :: "host \<Rightarrow> int \<Rightarrow> int \<Rightarrow> int option" where
  "setMinutes h t m = time_clip (utc_time h (local_time h t + (m - getMinutes h t) * 60000))"

definition setSeconds :: "host \<Rightarrow> int \<Rightarrow> int \<Rightarrow> int option" where
  "setSeconds h t s = time_clip (utc_time h (local_time h t + (s - getSeconds h t) * 1000))"

text \<open>\<open>toISOString\<close> of a valid Date: \<open>YYYY-MM-DDTHH:mm:ss.sssZ\<close> in UTC, the year
  with a sign and six digits outside 0 to 9999.\<close>

definition digit_char :: "nat \<Rightarrow> char" where
  "digit_char n = ''0123456789'' ! (n mod 10)"

primrec pad :: "nat \<Rightarrow> nat \<Rightarrow> string" where
  "pad 0 n = []"
| "pad (Suc w) n = pad w (n div 10) @ [digit_char n]"

definition year_string :: "int \<Rightarrow> string" where
  "year_string y =
     (if 0 \<le> y \<and> y \<le> 9999 then pad 4 (nat y)
      else (if y < 0 then ''-'' else ''+'') @ pad 6 (nat \<bar>y\<bar>))"

definition toISOString :: "int \<Rightarrow> string" where
  "toISOString t =
     year_string (year_from_day (day t)) @ ''-'' @
     pad 2 (nat (month_of_day (day t) + 1)) @ ''-'' @
     pad 2 (nat (date_of_day (day t))) @ ''T'' @
     pad 2 (nat ((t div 3600000) mod 24)) @ '':'' @
     pad 2 (nat ((t div 60000) mod 60)) @ '':'' @
     pad 2 (nat ((t div 1000) mod 60)) @ ''.'' @
     pad 3 (nat (t mod 1000)) @ ''Z''"

text \<open>
  Notions used to state and prove facts about \<open>toISOString\<close>: the instants of the
  years 0000 to 9999, which it writes with four digits; the date part, the time part
  and the part up to the seconds of its result.
\<close>

definition four_digit_year :: "int \<Rightarrow> bool" where
  "four_digit_year t = (- 62167219200000 \<le> t \<and> t < 253402300800000)"

definition iso_date :: "int \<Rightarrow> string" where
  "iso_date n = pad 4 (nat (year_from_day n)) @ ''-'' @ pad 2 (nat (month_of_day n + 1)) @ ''-'' @
     pad 2 (nat (date_of_day n))"

definition iso_time :: "int \<Rightarrow> string" where
  "iso_time t = pad 2 (nat ((t div 3600000) mod 24)) @ '':'' @
     pad 2 (nat ((t div 60000) mod 60)) @ '':'' @ pad 2 (nat ((t div 1000) mod 60))"

definition iso_seconds :: "int \<Rightarrow> string" where
  "iso_seconds s =
     year_string (year_from_day (s div 86400)) @ ''-'' @
     pad 2 (nat (month_of_day (s div 86400) + 1)) @ ''-'' @
     pad 2 (nat (date_of_day (s div 86400))) @ ''T'' @
     pad 2 (nat ((s div 3600) mod 24)) @ '':'' @
     pad 2 (nat ((s div 60) mod 60)) @ '':'' @
     pad 2 (nat (s mod 60))"

section \<open>The class SunCalc\<close>

text \<open>
  \<open>vec\<close> is the host's Vec2 or Vec3: a Vec2 has no \<open>z\<close> property (\<open>vec_z = None\<close>).
  In \<open>latitude_trig\<close> the \<open>z\<close> component is the quotient sin / cos, which is not a
  finite number (\<open>None\<close>) when the cosine is 0.
\<close>

record vec =
  vec_x :: real
  vec_y :: real
  vec_z :: "real option"

record SunCalc =
  latitude :: real
  longitude :: real
  altitude :: real
  date :: int
  timezone :: int
  sunrise :: "int option"
  sunset :: "int option"
  solar_noon :: "int option"
  solar_midnight :: "int option"
  civil_dawn :: "int option"
  civil_dusk :: "int option"
  nautical_dawn :: "int option"
  nautical_dusk :: "int option"
  astronomical_dawn :: "int option"
  astronomical_dusk :: "int option"
  sun_elevation :: "real option"
  sun_azimuth :: "real option"
  latitude_trig :: vec
  last_date :: string

definition eqtime :: "real \<Rightarrow> real" where
  "eqtime g = 229.18 * (0.000075 + 0.001868 * cos g - 0.032077 * sin g
                        - 0.014615 * cos (g + g) - 0.040849 * sin (g + g))"

definition declination :: "real \<Rightarrow> real" where
  "declination g = 0.006918 - 0.399912 * cos g + 0.070257 * sin g
                   - 0.006758 * cos (g + g) + 0.000907 * sin (g + g)
                   - 0.002697 * cos (g * 3) + 0.00148 * sin (g * 3)"

text \<open>The fractional year of \<open>_updateStatic_\<close>: from the start of the year to the
  start of the day after the reference day.\<close>

definition static_fract_year :: "host \<Rightarrow> int \<Rightarrow> real option" where
  "static_fract_year h d =
     do {
       startOfYear \<leftarrow> new_Date h (getFullYear h d) 0 1;
       startOfNextYear \<leftarrow> new_Date h (getFullYear h d + 1) 0 1;
       thisDate \<leftarrow> new_Date h (getFullYear h d) (getMonth h d) (getDate h d + 1);
       f \<leftarrow> js_div (real_of_int (thisDate - startOfYear))
                     (real_of_int (startOfNextYear - startOfYear));
       Some (f * (pi + pi))
     }"

text \<open>The fractional year of \<open>_updateDynamic_\<close>: up to the reference instant itself.\<close>

definition dynamic_fract_year :: "host \<Rightarrow> int \<Rightarrow> real option" where
  "dynamic_fract_year h d =
     do {
       startOfYear \<leftarrow> new_Date h (getFullYear h d) 0 1;
       startOfNextYear \<leftarrow> new_Date h (getFullYear h d + 1) 0 1;
       f \<leftarrow> js_div (real_of_int (d - startOfYear))
                     (real_of_int (startOfNextYear - startOfYear));
       Some (f * (pi + pi))
     }"

text \<open>\<open>computeHourAngle\<close>, with the cosine and tangent products it closes over. The
  cosine of the declination is never 0 (lemma \<open>cos_declination_pos\<close> below), so its
  tangent is the quotient.\<close>

definition computeHourAngle :: "SunCalc \<Rightarrow> real \<Rightarrow> real \<Rightarrow> real option" where
  "computeHourAngle s g threshold =
     do {
       lat_tan \<leftarrow> vec_z (latitude_trig s);
       q \<leftarrow> js_div (threshold - 0.0002076 * altitude s * 0.01745329)
                     (cos (declination g) * vec_y (latitude_trig s));
       a \<leftarrow> js_acos (q - sin (declination g) / cos (declination g) * lat_tan);
       Some (a * 57.2957795)
     }"

definition computeTime :: "SunCalc \<Rightarrow> real \<Rightarrow> real \<Rightarrow> real" where
  "computeTime s g hourAngle = 720 - 4 * (longitude s * 57.2957795 + hourAngle) - eqtime g"

text \<open>One event: a copy of the day's midnight, \<open>setMinutes\<close> with the whole minutes,
  \<open>setSeconds\<close> with the fractional minute in seconds (the Date keeps its integer
  part).\<close>

definition make_event :: "host \<Rightarrow> int option \<Rightarrow> real option \<Rightarrow> int option" where
  "make_event h time_template minutes =
     do {
       t \<leftarrow> time_template;
       m \<leftarrow> minutes;
       t1 \<leftarrow> setMinutes h t \<lfloor>m\<rfloor>;
       setSeconds h t1 (js_trunc ((m - real_of_int \<lfloor>m\<rfloor>) * 60))
     }"

definition updateStatic :: "host \<Rightarrow> SunCalc \<Rightarrow> SunCalc" where
  "updateStatic h s =
     (let fract_year_rad = static_fract_year h (date s);
          hour_angle_h = fract_year_rad \<bind> (\<lambda>g. computeHourAngle s g (- 0.0145381));
          hour_angle_c = fract_year_rad \<bind> (\<lambda>g. computeHourAngle s g (- 0.1045285));
          hour_angle_n = fract_year_rad \<bind> (\<lambda>g. computeHourAngle s g (- 0.2079117));
          hour_angle_a = fract_year_rad \<bind> (\<lambda>g. computeHourAngle s g (- 0.309017));
          time_of = (\<lambda>hourAngle. do { g \<leftarrow> fract_year_rad; a \<leftarrow> hourAngle;
                                       Some (computeTime s g a) });
          time_template = new_Date h (getFullYear h (date s)) (getMonth h (date s))
                                     (getDate h (date s))
      in s\<lparr> sunrise := make_event h time_template (time_of hour_angle_h),
            sunset := make_event h time_template (time_of (map_option uminus hour_angle_h)),
            solar_noon := make_event h time_template (time_of (Some 0)),
            solar_midnight := make_event h time_template (time_of (Some (- 180))),
            civil_dawn := make_event h time_template (time_of hour_angle_c),
            civil_dusk := make_event h time_template (time_of (map_option uminus hour_angle_c)),
            nautical_dawn := make_event h time_template (time_of hour_angle_n),
            nautical_dusk := make_event h time_template (time_of (map_option uminus hour_angle_n)),
            astronomical_dawn := make_event h time_template (time_of hour_angle_a),
            astronomical_dusk :=
              make_event h time_template (time_of (map_option uminus hour_angle_a)) \<rparr>)"

text \<open>The refraction term of \<open>_updateDynamic_\<close>, as a function of the zenith angle
  the code calls \<open>elevation\<close>.\<close>

definition refraction :: "real \<Rightarrow> real option" where
  "refraction elevation =
     do {
       q \<leftarrow> js_div 10.3 (elevation + 5.11);
       t \<leftarrow> js_tan (elevation + q);
       js_div (- 0.0167) t
     }"

definition hour_angle :: "host \<Rightarrow> SunCalc \<Rightarrow> real \<Rightarrow> real" where
  "hour_angle h s g =
     ((real_of_int (getHours h (date s)) * 60 + real_of_int (getMinutes h (date s))
        + real_of_int (getSeconds h (date s)) * 0.01666667
        + (eqtime g + 4 * longitude s * 57.2957795 - real_of_int (timezone s))) * 0.25 - 180)
      * 0.01745329"

definition updateDynamic :: "host \<Rightarrow> SunCalc \<Rightarrow> SunCalc" where
  "updateDynamic h s =
     (let fract_year_rad = dynamic_fract_year h (date s);
          elevation = fract_year_rad \<bind> (\<lambda>g.
             js_acos (vec_x (latitude_trig s) * sin (declination g)
                      + vec_y (latitude_trig s) * cos (declination g) * cos (hour_angle h s g))
             \<bind> (\<lambda>a. Some (a * 57.2957795)));
          azimuth = map_option (\<lambda>g.
             pi + js_atan2 (sin (hour_angle h s g))
                    (cos (hour_angle h s g) * vec_x (latitude_trig s)
                     - sin (declination g) / cos (declination g) * vec_y (latitude_trig s)))
             fract_year_rad
      in s\<lparr> sun_elevation :=
              do { e \<leftarrow> elevation; r \<leftarrow> refraction e;
                   Some (90 - e + r + 0.0002076 * altitude s) },
            sun_azimuth := map_option (\<lambda>a. a * 57.2957795) azimuth \<rparr>)"

text \<open>
  The constructor. The \<open>date\<close> argument is omitted (\<open>None\<close>), an Invalid Date
  (\<open>Some None\<close>, on which \<open>toISOString\<close> throws a RangeError) or a valid Date;
  \<open>construct_engine\<close> is the body once \<open>_date_\<close> is set: the field assignments
  (\<open>initial_engine\<close>), then the two calculators. The \<open>timezone\<close> argument is
  omitted (\<open>None\<close>) or a number. \<open>new Date(s)\<close> on the ISO string \<open>s\<close> of a valid
  Date gives that Date's time value back.
\<close>

definition trig_of :: "real \<Rightarrow> vec" where
  "trig_of lat = \<lparr> vec_x = sin lat, vec_y = cos lat, vec_z = js_div (sin lat) (cos lat) \<rparr>"

definition initial_engine :: "host \<Rightarrow> vec \<Rightarrow> int \<Rightarrow> real option \<Rightarrow> SunCalc" where
  "initial_engine h coordinates d timezone_arg =
     \<lparr> latitude = vec_x coordinates * 0.01745329,
       longitude = vec_y coordinates * 0.01745329,
       altitude = (case vec_z coordinates of Some a \<Rightarrow> a | None \<Rightarrow> 0),
       date = d,
       timezone = (case timezone_arg of
                     None \<Rightarrow> - host_tzo h d
                   | Some tz \<Rightarrow> if tz = 0 then - host_tzo h d else \<lfloor>tz\<rfloor>),
       sunrise = Some 0, sunset = Some 0, solar_noon = Some 0, solar_midnight = Some 0,
       civil_dawn = Some 0, civil_dusk = Some 0,
       nautical_dawn = Some 0, nautical_dusk = Some 0,
       astronomical_dawn = Some 0, astronomical_dusk = Some 0,
       sun_elevation = Some 0, sun_azimuth = Some 0,
       latitude_trig = trig_of (vec_x coordinates * 0.01745329),
       last_date = ''1970-01-01T00:00:00Z'' \<rparr>"

definition construct_engine :: "host \<Rightarrow> vec \<Rightarrow> int \<Rightarrow> real option \<Rightarrow> SunCalc" where
  "construct_engine h coordinates d timezone_arg =
     updateDynamic h (updateStatic h (initial_engine h coordinates d timezone_arg))"

definition new_SunCalc :: "host \<Rightarrow> vec \<Rightarrow> int option option \<Rightarrow> real option \<Rightarrow> error + SunCalc"
  where
  "new_SunCalc h coordinates date_arg timezone_arg =
     (case date_arg of
        None \<Rightarrow> Inr (construct_engine h coordinates (host_now h) timezone_arg)
      | Some None \<Rightarrow> Inl RangeError
      | Some (Some t) \<Rightarrow> Inr (construct_engine h coordinates t timezone_arg))"

text \<open>\<open>setLocation\<close> returns the new state of the engine and the new state of the
  caller's coordinates object, which it overwrites. With no \<open>z\<close> property the
  altitude difference is NaN and its comparison false.\<close>

definition setLocation :: "host \<Rightarrow> SunCalc \<Rightarrow> vec \<Rightarrow> real option \<Rightarrow> SunCalc \<times> vec" where
  "setLocation h s coordinates timezone_arg =
     (let tz = (case timezone_arg of
                  None \<Rightarrow> timezone s
                | Some v \<Rightarrow> if v = 0 then timezone s else \<lfloor>v\<rfloor>);
          c = coordinates\<lparr> vec_x := vec_x coordinates * 0.01745329,
                           vec_y := vec_y coordinates * 0.01745329 \<rparr>
      in if \<bar>vec_x c - latitude s\<bar> > 0.00000001
            \<or> \<bar>vec_y c - longitude s\<bar> > 0.00000001
            \<or> (case vec_z c of Some a \<Rightarrow> \<bar>a - altitude s\<bar> > 0.01 | None \<Rightarrow> False)
            \<or> timezone s \<noteq> tz
         then (updateDynamic h (updateStatic h
                 (s\<lparr> latitude := vec_x c,
                     longitude := vec_y c,
                     altitude := (case vec_z c of Some a \<Rightarrow> a | None \<Rightarrow> 0),
                     timezone := tz,
                     latitude_trig := trig_of (vec_x c) \<rparr>)), c)
         else (s, c))"

text \<open>
  \<open>setDateTime\<close>. The method assigns to \<open>newDate\<close> and \<open>currentDate\<close>, which
  neither it nor the class declares. A class body is strict code, so each assignment
  throws a ReferenceError unless the scope around the class binds the name to a
  variable; \<open>globals\<close> is the set of the names so bound (empty for the class on its
  own and for the example script). The right-hand side is evaluated first, so an
  Invalid Date throws the RangeError of \<open>toISOString\<close>. With both names bound they
  hold the two ISO strings; \<open>substring(0, n)\<close> is \<open>take n\<close>.
\<close>

definition setDateTime :: "string set \<Rightarrow> host \<Rightarrow> SunCalc \<Rightarrow> int option \<Rightarrow> error + SunCalc"
  where
  "setDateTime globals h s date_arg =
     (case date_arg of
        None \<Rightarrow> Inl RangeError
      | Some t \<Rightarrow>
          if ''newDate'' \<notin> globals then Inl ReferenceError
          else if ''currentDate'' \<notin> globals then Inl ReferenceError
          else
          (let newDate = toISOString t;
               currentDate = toISOString (date s)
           in if take 19 currentDate \<noteq> take 19 newDate
              then (let s1 = updateDynamic h (s\<lparr> date := t \<rparr>)
                    in if take 10 currentDate \<noteq> take 10 (last_date s1)
                       then Inr (updateStatic h (s1\<lparr> last_date := currentDate \<rparr>))
                       else Inr s1)
              else Inr s))"


definition getTimezone :: "SunCalc \<Rightarrow> int" where
  "getTimezone s = timezone s"

definition getSunPosition :: "SunCalc \<Rightarrow> real option \<times> real option" where
  "getSunPosition s = (sun_azimuth s, sun_elevation s)"

text \<open>The event accessors share one body: the stored Date, its minutes moved by the
  timezone. The argument is \<open>None\<close> when it is not a finite number.\<close>

definition shifted :: "host \<Rightarrow> SunCalc \<Rightarrow> int option \<Rightarrow> real option \<Rightarrow> int option" where
  "shifted h s stored timezone_arg =
     do {
       t \<leftarrow> stored;
       setMinutes h t (getMinutes h t
                       + (case timezone_arg of Some v \<Rightarrow> \<lfloor>v\<rfloor> | None \<Rightarrow> timezone s))
     }"

definition getSunrise :: "host \<Rightarrow> SunCalc \<Rightarrow> real option \<Rightarrow> int option" where
  "getSunrise h s timezone_arg = shifted h s (sunrise s) timezone_arg"

definition getSunset :: "host \<Rightarrow> SunCalc \<Rightarrow> real option \<Rightarrow> int option" where
  "getSunset h s timezone_arg = shifted h s (sunset s) timezone_arg"

definition getSolarNoon :: "host \<Rightarrow> SunCalc \<Rightarrow> real option \<Rightarrow> int option" where
  "getSolarNoon h s timezone_arg = shifted h s (solar_noon s) timezone_arg"

definition getSolarMidnight :: "host \<Rightarrow> SunCalc \<Rightarrow> real option \<Rightarrow> int option" where
  "getSolarMidnight h s timezone_arg = shifted h s (solar_midnight s) timezone_arg"

definition getCivilDawn :: "host \<Rightarrow> SunCalc \<Rightarrow> real option \<Rightarrow> int option" where
  "getCivilDawn h s timezone_arg = shifted h s (civil_dawn s) timezone_arg"

definition getCivilDusk :: "host \<Rightarrow> SunCalc \<Rightarrow> real option \<Rightarrow> int option" where
  "getCivilDusk h s timezone_arg = shifted h s (civil_dusk s) timezone_arg"

definition getNauticalDawn :: "host \<Rightarrow> SunCalc \<Rightarrow> real option \<Rightarrow> int option" where
  "getNauticalDawn h s timezone_arg = shifted h s (nautical_dawn s) timezone_arg"

definition getNauticalDusk :: "host \<Rightarrow> SunCalc \<Rightarrow> real option \<Rightarrow> int option" where
  "getNauticalDusk h s timezone_arg = shifted h s (nautical_dusk s) timezone_arg"

definition getAstronomicalDawn :: "host \<Rightarrow> SunCalc \<Rightarrow> real option \<Rightarrow> int option" where
  "getAstronomicalDawn h s timezone_arg = shifted h s (astronomical_dawn s) timezone_arg"

definition getAstronomicalDusk :: "host \<Rightarrow> SunCalc \<Rightarrow> real option \<Rightarrow> int option" where
  "getAstronomicalDusk h s timezone_arg = shifted h s (astronomical_dusk s) timezone_arg"

section \<open>Notions used in the statements\<close>

text \<open>
  A host whose zone keeps one offset \<open>z\<close> from UTC at all times (no daylight-saving
  change); the local midnight that starts the host's civil day of an instant; and the
  instants for which the Date arithmetic of the calculators stays plain (a year
  written with four digits, at least 100 so that \<open>new Date(year, ...)\<close> reads it as
  it is, and a host offset of at most a day).
\<close>

definition constant_zone :: "host \<Rightarrow> int \<Rightarrow> bool" where
  "constant_zone h z = (\<forall>t. host_tzo h t = z \<and> host_local_tzo h t = z)"

definition local_midnight :: "host \<Rightarrow> int \<Rightarrow> int" where
  "local_midnight h t = utc_time h (day (local_time h t) * 86400000)"

definition modern :: "host \<Rightarrow> int \<Rightarrow> bool" where
  "modern h t = (four_digit_year t \<and> 100 \<le> getFullYear h t \<and> \<bar>host_tzo h t\<bar> \<le> 1440)"

text \<open>
  The event times as the specification words them, written from its formula and not
  from the code: \<open>event_minutes\<close> is \<open>m = 720 - 4 * (longitudeDeg + H) - eqtime\<close>,
  where \<open>longitudeDeg\<close> is the stored longitude (radians) times 57.2957795, \<open>H\<close> the
  hour angle in degrees and \<open>eqtime\<close> the equation of time of the year fraction \<open>g\<close>;
  \<open>stamp\<close> anchors \<open>m\<close> to the local midnight of the reference day as \<open>\<lfloor>m\<rfloor>\<close>
  whole minutes plus \<open>\<lfloor>(m - \<lfloor>m\<rfloor>) * 60\<rfloor>\<close> whole seconds, and is an Invalid Date
  when the year fraction or the hour angle is not a number.
\<close>

definition event_minutes :: "SunCalc \<Rightarrow> real \<Rightarrow> real \<Rightarrow> real" where
  "event_minutes s g H = 720 - 4 * (longitude s * 57.2957795 + H) - eqtime g"

definition stamp :: "host \<Rightarrow> SunCalc \<Rightarrow> (real \<Rightarrow> real option) \<Rightarrow> int option" where
  "stamp h s hourAngle =
     do {
       g \<leftarrow> static_fract_year h (date s);
       H \<leftarrow> hourAngle g;
       Some (local_midnight h (date s) + 60000 * \<lfloor>event_minutes s g H\<rfloor>
             + 1000 * \<lfloor>(event_minutes s g H - real_of_int \<lfloor>event_minutes s g H\<rfloor>) * 60\<rfloor>)
     }"

text \<open>
  The argument of the arccosine in \<open>computeHourAngle\<close>, and what it is for it to lie
  outside [-1, 1].
\<close>

definition acos_argument :: "SunCalc \<Rightarrow> real \<Rightarrow> real \<Rightarrow> real option" where
  "acos_argument s g threshold =
     do {
       lat_tan \<leftarrow> vec_z (latitude_trig s);
       q \<leftarrow> js_div (threshold - 0.0002076 * altitude s * 0.01745329)
                     (cos (declination g) * vec_y (latitude_trig s));
       Some (q - sin (declination g) / cos (declination g) * lat_tan)
     }"

definition out_of_range :: "real option \<Rightarrow> bool" where
  "out_of_range v = (case v of None \<Rightarrow> False | Some a \<Rightarrow> a < - 1 \<or> 1 < a)"

text \<open>The zenith angle \<open>z\<close> with \<open>z + 10.3 / (z + 5.11) = c\<close>, the argument of the
  tangent in the refraction term.\<close>

definition zenith_for :: "real \<Rightarrow> real" where
  "zenith_for c = ((c - 5.11) + sqrt ((c - 5.11)\<^sup>2 + 4 * (5.11 * c - 10.3))) / 2"

section \<open>Inputs used in the examples\<close>

text \<open>A host in the UTC zone, and an engine at 45 N, 0 E, 0 m, built for
  2024-03-20T10:00:00Z with the timezone 60.\<close>

definition utc_host :: host where
  "utc_host = \<lparr> host_now = 1710928800000, host_tzo = (\<lambda>t. 0), host_local_tzo = (\<lambda>t. 0) \<rparr>"

definition engine45 :: SunCalc where
  "engine45 = construct_engine utc_host \<lparr> vec_x = 45, vec_y = 0, vec_z = Some 0 \<rparr> 1710928800000 (Some 60)"

text \<open>A host one hour east of UTC (\<open>getTimezoneOffset()\<close> is -60), and an engine at
  45 N, 0 E, 100 m.\<close>

definition cet_host :: host where
  "cet_host =
     \<lparr> host_now = 1710928800000, host_tzo = (\<lambda>t. - 60), host_local_tzo = (\<lambda>t. - 60) \<rparr>"

definition engine45_100m :: SunCalc where
  "engine45_100m =
     construct_engine utc_host \<lparr> vec_x = 45, vec_y = 0, vec_z = Some 100 \<rparr> 1710928800000 (Some 60)"

text \<open>A host one hour east of UTC that moves to two hours east at
  2024-03-31T01:00:00Z: the local times from 02:00 to 03:00 of that day do not exist,
  and the host reads them with the earlier offset.\<close>

definition dst_host :: host where
  "dst_host =
     \<lparr> host_now = 1711843200000,
       host_tzo = (\<lambda>t. if t < 1711846800000 then - 60 else - 120),
       host_local_tzo = (\<lambda>t. if t < 1711854000000 then - 60 else - 120) \<rparr>"

text \<open>A scope that declares the two names \<open>setDateTime\<close> assigns to.\<close>

definition declared_names :: "string set" where
  "declared_names = {''newDate'', ''currentDate''}"



definition engine80_dec31 :: SunCalc where
  "engine80_dec31 =
     construct_engine utc_host \<lparr> vec_x = 80, vec_y = 0, vec_z = Some 0 \<rparr> 1704024000000 (Some 60)"

text \<open>An engine at 45 N, 0 E built for 2023-01-01T00:00:00Z; and, for a real \<open>c\<close>, the
  engine built for 2024-01-01T00:00:00Z with the timezone -720 at the longitude where
  the hour angle is 0 and at the latitude where the zenith angle is \<open>zenith_for c\<close>.\<close>

definition engine45_ny2023 :: SunCalc where
  "engine45_ny2023 =
     construct_engine utc_host \<lparr> vec_x = 45, vec_y = 0, vec_z = Some 0 \<rparr> 1672531200000 (Some 60)"

definition near_singular_engine :: "real \<Rightarrow> SunCalc" where
  "near_singular_engine c =
     construct_engine utc_host
       \<lparr> vec_x = (- 0.402449 + zenith_for c / 57.2957795) / 0.01745329,
         vec_y = 2.90416896 / (4 * 57.2957795 * 0.01745329),
         vec_z = Some 0 \<rparr>
       1704067200000 (Some (- 720))"

text \<open>An engine at 21.450113 S, at the same longitude, built for the same instant with
  the same timezone: the sun is 1.6085 degrees from its zenith.\<close>

definition engine21s_ny2024 :: SunCalc where
  "engine21s_ny2024 =
     construct_engine utc_host
       \<lparr> vec_x = - 21.450113, vec_y = 2.90416896 / (4 * 57.2957795 * 0.01745329),
         vec_z = Some 0 \<rparr>
       1704067200000 (Some (- 720))"

section \<open>The calendar of the host\<close>

lemma quot_rem:
  fixes a c :: int
  assumes "0 < c"
  obtains q r where "a div c = q" "a = c * q + r" "0 \<le> r" "r < c"
  using assms by (metis mult_div_mod_eq pos_mod_bound pos_mod_sign)

lemma day_from_year_bounds:
  "146097 * y - 287811596 \<le> 400 * day_from_year y"
  "400 * day_from_year y \<le> 146097 * y - 287810501"
proof -
  obtain q4 r4 where a: "(y - 1969) div 4 = q4" "y - 1969 = 4 * q4 + r4" "0 \<le> r4" "r4 < 4"
    by (rule quot_rem [of 4 "y - 1969"]) simp
  obtain q1 r1 where b: "(y - 1901) div 100 = q1" "y - 1901 = 100 * q1 + r1" "0 \<le> r1" "r1 < 100"
    by (rule quot_rem [of 100 "y - 1901"]) simp
  obtain q0 r0 where c: "(y - 1601) div 400 = q0" "y - 1601 = 400 * q0 + r0" "0 \<le> r0" "r0 < 400"
    by (rule quot_rem [of 400 "y - 1601"]) simp
  have d: "400 * day_from_year y = 146000 * y - 287620000 + 400 * q4 - 400 * q1 + 400 * q0"
    by (simp add: day_from_year_def a b c)
  show "146097 * y - 287811596 \<le> 400 * day_from_year y"
    unfolding d using a(2-4) b(2-4) c(2-4) by linarith
  show "400 * day_from_year y \<le> 146097 * y - 287810501"
    unfolding d using a(2-4) b(2-4) c(2-4) by linarith
qed

lemma year_from_day_bounds:
  "day_from_year (year_from_day n) \<le> n \<and> n < day_from_year (year_from_day n + 1)"
proof -
  obtain q r where qr: "(400 * n) div 146097 = q" "400 * n = 146097 * q + r" "0 \<le> r" "r < 146097"
    by (rule quot_rem [of 146097 "400 * n"]) simp
  define y where "y = 1970 + q"
  have lo: "day_from_year (y - 1) \<le> n"
  proof -
    have "400 * day_from_year (y - 1) \<le> 146097 * q - 145508"
      using day_from_year_bounds(2) [of "y - 1"] by (simp add: y_def algebra_simps)
    then show ?thesis using qr(2,3) by linarith
  qed
  have hi: "n < day_from_year (y + 2)"
  proof -
    have "146097 * q + 291688 \<le> 400 * day_from_year (y + 2)"
      using day_from_year_bounds(1) [of "y + 2"] by (simp add: y_def algebra_simps)
    then show ?thesis using qr(2,4) by linarith
  qed
  have ys: "year_from_day n = (if n < day_from_year y then y - 1
         else if day_from_year (y + 1) \<le> n then y + 1 else y)"
    by (simp add: year_from_day_def Let_def y_def qr(1))
  have two: "y + 1 + 1 = y + 2" by simp
  show ?thesis
  proof (cases "n < day_from_year y")
    case True
    then show ?thesis using lo unfolding ys by simp
  next
    case False
    then show ?thesis using hi unfolding ys by (simp add: two)
  qed
qed

lemma div_step:
  fixes a c :: int
  assumes "0 < c"
  shows "(a + 1) div c = a div c + (if (a + 1) mod c = 0 then 1 else 0)"
proof -
  obtain q r where qr: "a div c = q" "a = c * q + r" "0 \<le> r" "r < c"
    using assms by (rule quot_rem)
  show ?thesis
  proof (cases "r + 1 < c")
    case True
    have e: "a + 1 = c * q + (r + 1)" using qr(2) by simp
    have "(a + 1) div c = q" using e qr(3) True by (intro int_div_pos_eq [of _ _ _ "r + 1"]) simp_all
    moreover have "(a + 1) mod c = r + 1"
      using e qr(3) True by (intro int_mod_pos_eq [of _ _ q]) simp_all
    ultimately show ?thesis using qr(1,3) by simp
  next
    case False
    then have rc: "r + 1 = c" using qr(4) by simp
    have e: "a + 1 = c * (q + 1) + 0" using qr(2) rc by (simp add: algebra_simps)
    have "(a + 1) div c = q + 1" using e assms by (intro int_div_pos_eq [of _ _ _ 0]) simp_all
    moreover have "(a + 1) mod c = 0" using e assms by (intro int_mod_pos_eq [of _ _ "q + 1"]) simp_all
    ultimately show ?thesis using qr(1) by simp
  qed
qed

lemma leap_shift:
  "((y::int) - 1968) mod 4 = y mod 4"
  "(y - 1900) mod 100 = y mod 100"
  "(y - 1600) mod 400 = y mod 400"
  using mod_mult_self1 [of y "- 492" 4] mod_mult_self1 [of y "- 19" 100]
    mod_mult_self1 [of y "- 4" 400] by simp_all

lemma leap_chain:
  "(y::int) mod 400 = 0 \<Longrightarrow> y mod 100 = 0"
  "(y::int) mod 100 = 0 \<Longrightarrow> y mod 4 = 0"
  using dvd_trans [of 100 400 y] dvd_trans [of 4 100 y] by (simp_all add: mod_eq_0_iff_dvd)

lemma days_in_year:
  "day_from_year (y + 1) = day_from_year y + 365 + (if in_leap_year y then 1 else 0)"
proof -
  have a: "(y + 1 - 1969) div 4 = (y - 1969) div 4 + (if y mod 4 = 0 then 1 else 0)"
    using div_step [of 4 "y - 1969"] leap_shift(1) [of y] by (simp add: algebra_simps)
  have b: "(y + 1 - 1901) div 100 = (y - 1901) div 100 + (if y mod 100 = 0 then 1 else 0)"
    using div_step [of 100 "y - 1901"] leap_shift(2) [of y] by (simp add: algebra_simps)
  have c: "(y + 1 - 1601) div 400 = (y - 1601) div 400 + (if y mod 400 = 0 then 1 else 0)"
    using div_step [of 400 "y - 1601"] leap_shift(3) [of y] by (simp add: algebra_simps)
  have d: "day_from_year (y + 1) = 365 * (y + 1 - 1970) + (y + 1 - 1969) div 4
      - (y + 1 - 1901) div 100 + (y + 1 - 1601) div 400"
    by (simp only: day_from_year_def)
  show ?thesis
    unfolding d a b c unfolding day_from_year_def in_leap_year_def
    using leap_chain [of y] by (auto simp del: mod_eq_0_iff_dvd)
qed

lemma day_within_year_range:
  "0 \<le> day_within_year n"
  "day_within_year n < 365 + (if in_leap_year (year_from_day n) then 1 else 0)"
  using year_from_day_bounds [of n] days_in_year [of "year_from_day n"]
  by (simp_all add: day_within_year_def)

lemma month_from_day_range: "0 \<le> month_from_day l d" "month_from_day l d \<le> 11"
  by (simp_all add: month_from_day_def Let_def)

lemma month_table:
  assumes "0 \<le> d" and "d < 365 + (if l then 1 else 0)"
  shows "1 \<le> d - month_start l (month_from_day l d) + 1"
    and "d - month_start l (month_from_day l d) + 1 \<le> 31"
  using assms by (auto simp add: month_from_day_def month_start_def Let_def)

lemma month_of_day_range: "0 \<le> month_of_day n" "month_of_day n \<le> 11"
  by (simp_all add: month_of_day_def month_from_day_range)

lemma date_of_day_range: "1 \<le> date_of_day n" "date_of_day n \<le> 31"
  using month_table [OF day_within_year_range, of n]
  by (simp_all add: date_of_day_def month_of_day_def)

lemma make_day_inverse:
  "make_day (year_from_day n) (month_of_day n) (date_of_day n + k) = n + k"
proof -
  have "month_of_day n div 12 = 0" "month_of_day n mod 12 = month_of_day n"
    using month_of_day_range [of n] by simp_all
  then show ?thesis
    by (simp add: make_day_def date_of_day_def day_within_year_def)
qed

lemma make_day_january: "make_day y 0 1 = day_from_year y"
  by (simp add: make_day_def month_start_def)

lemma digit_char_inj: "a < 10 \<Longrightarrow> b < 10 \<Longrightarrow> digit_char a = digit_char b \<Longrightarrow> a = b"
proof -
  assume a: "a < 10" and b: "b < 10" and e: "digit_char a = digit_char b"
  have d: "distinct ''0123456789''" by simp
  have "''0123456789'' ! a = ''0123456789'' ! b" using e a b by (simp add: digit_char_def)
  then show "a = b" using d a b by (simp add: nth_eq_iff_index_eq)
qed

lemma length_pad [simp]: "length (pad w n) = w"
  by (induction w arbitrary: n) simp_all

lemma pad_inj: "n < 10 ^ w \<Longrightarrow> m < 10 ^ w \<Longrightarrow> pad w n = pad w m \<Longrightarrow> n = m"
proof (induction w arbitrary: n m)
  case 0
  then show ?case by simp
next
  case (Suc w)
  have d: "n div 10 < 10 ^ w" "m div 10 < 10 ^ w"
    using Suc.prems(1,2) by (simp_all add: less_mult_imp_div_less mult.commute)
  from Suc.prems(3) have p: "pad w (n div 10) = pad w (m div 10)"
    and c: "digit_char n = digit_char m" by simp_all
  have "n div 10 = m div 10" using Suc.IH [OF d p] .
  moreover have "n mod 10 = m mod 10"
    using c digit_char_inj [of "n mod 10" "m mod 10"] by (simp add: digit_char_def)
  ultimately show ?case by (metis div_mult_mod_eq)
qed

lemma pad_int_inj:
  assumes "0 \<le> a" "a < 10 ^ w" "0 \<le> b" "b < 10 ^ w" "pad w (nat a) = pad w (nat b)"
  shows "a = b"
proof -
  have "nat a < 10 ^ w" "nat b < 10 ^ w"
    using assms(1-4) by (simp_all add: nat_less_iff)
  then have "nat a = nat b" using assms(5) by (rule pad_inj)
  then show ?thesis using assms(1,3) by simp
qed

lemma pad2_inj: "0 \<le> a \<Longrightarrow> a < 100 \<Longrightarrow> 0 \<le> b \<Longrightarrow> b < 100 \<Longrightarrow>
    pad 2 (nat a) = pad 2 (nat b) \<Longrightarrow> a = b"
  using pad_int_inj [of a 2 b] by simp

lemma pad4_inj: "0 \<le> a \<Longrightarrow> a < 10000 \<Longrightarrow> 0 \<le> b \<Longrightarrow> b < 10000 \<Longrightarrow>
    pad 4 (nat a) = pad 4 (nat b) \<Longrightarrow> a = b"
  using pad_int_inj [of a 4 b] by simp

lemma day_from_year_values: "day_from_year 0 = - 719528" "day_from_year 10000 = 2932897"
  by (simp_all add: day_from_year_def)

lemma four_digit_year_day:
  assumes "four_digit_year t"
  shows "- 719528 \<le> day t" "day t < 2932897"
proof -
  obtain q r where qr: "t div 86400000 = q" "t = 86400000 * q + r" "0 \<le> r" "r < 86400000"
    by (rule quot_rem [of 86400000 t]) simp
  show "- 719528 \<le> day t" "day t < 2932897"
    using assms qr unfolding four_digit_year_def day_def by linarith+
qed

lemma day_from_year_below: "z \<le> - 1 \<Longrightarrow> day_from_year z < - 719528"
  using day_from_year_bounds(2) [of z] by linarith

lemma day_from_year_above: "10001 \<le> z \<Longrightarrow> 2932897 < day_from_year z"
  using day_from_year_bounds(1) [of z] by linarith

lemma year_from_day_four_digits:
  assumes "- 719528 \<le> n" "n < 2932897"
  shows "0 \<le> year_from_day n" "year_from_day n \<le> 9999"
proof -
  define y where "y = year_from_day n"
  have b: "day_from_year y \<le> n" "n < day_from_year (y + 1)"
    using year_from_day_bounds [of n] by (simp_all add: y_def)
  show "0 \<le> year_from_day n"
  proof (rule ccontr)
    assume "\<not> 0 \<le> year_from_day n"
    then have neg: "y + 1 \<le> 0" by (simp add: y_def)
    show False
    proof (cases "y + 1 = 0")
      case True
      then show False using b(2) assms(1) day_from_year_values(1) by simp
    next
      case False
      then have "y + 1 \<le> - 1" using neg by simp
      then show False
        using day_from_year_below [of "y + 1"] b(2) assms(1) by linarith
    qed
  qed
  show "year_from_day n \<le> 9999"
  proof (rule ccontr)
    assume "\<not> year_from_day n \<le> 9999"
    then have big: "10000 \<le> y" by (simp add: y_def)
    show False
    proof (cases "y = 10000")
      case True
      then show False using b(1) assms(2) day_from_year_values(2) by simp
    next
      case False
      then have "10001 \<le> y" using big by simp
      then show False
        using day_from_year_above [of y] b(1) assms(2) by linarith
    qed
  qed
qed

lemma four_digit_year_fields:
  assumes "four_digit_year t"
  shows "0 \<le> year_from_day (day t)" "year_from_day (day t) \<le> 9999"
  using year_from_day_four_digits [OF four_digit_year_day [OF assms]] by simp_all

lemma length_iso [simp]: "length (iso_date n) = 10" "length (iso_time t) = 8"
  by (simp_all add: iso_date_def iso_time_def)

lemma toISOString_four_digits:
  assumes "four_digit_year t"
  shows "toISOString t = iso_date (day t) @ ''T'' @ iso_time t @ ''.'' @ pad 3 (nat (t mod 1000)) @ ''Z''"
  using four_digit_year_fields [OF assms]
  by (simp add: toISOString_def year_string_def iso_date_def iso_time_def)

lemma take10_iso: "four_digit_year t \<Longrightarrow> take 10 (toISOString t) = iso_date (day t)"
  by (simp add: toISOString_four_digits)

lemma take19_iso:
  "four_digit_year t \<Longrightarrow> take 19 (toISOString t) = iso_date (day t) @ ''T'' @ iso_time t"
  by (simp add: toISOString_four_digits)

lemma iso_date_inj:
  assumes "- 719528 \<le> n" "n < 2932897" "- 719528 \<le> m" "m < 2932897"
    and "iso_date n = iso_date m"
  shows "n = m"
proof -
  have e: "pad 4 (nat (year_from_day n)) = pad 4 (nat (year_from_day m))"
    "pad 2 (nat (month_of_day n + 1)) = pad 2 (nat (month_of_day m + 1))"
    "pad 2 (nat (date_of_day n)) = pad 2 (nat (date_of_day m))"
    using assms(5) by (simp_all add: iso_date_def)
  have y: "year_from_day n = year_from_day m"
    using year_from_day_four_digits [OF assms(1,2)] year_from_day_four_digits [OF assms(3,4)] e(1)
    by (intro pad4_inj) simp_all
  have mo: "month_of_day n + 1 = month_of_day m + 1"
    using month_of_day_range [of n] month_of_day_range [of m] e(2)
    by (intro pad2_inj) simp_all
  have d: "date_of_day n = date_of_day m"
    using date_of_day_range [of n] date_of_day_range [of m] e(3)
    by (intro pad2_inj) simp_all
  have "n = make_day (year_from_day n) (month_of_day n) (date_of_day n)"
    using make_day_inverse [of n 0] by simp
  also have "\<dots> = make_day (year_from_day m) (month_of_day m) (date_of_day m)"
    using y mo d by simp
  also have "\<dots> = m" using make_day_inverse [of m 0] by simp
  finally show ?thesis .
qed

lemma seconds_split:
  "(t::int) div 1000 = 86400 * (t div 86400000) + 3600 * ((t div 3600000) mod 24)
      + 60 * ((t div 60000) mod 60) + (t div 1000) mod 60"
proof -
  define s where "s = t div 1000"
  define m where "m = s div 60"
  define h where "h = m div 60"
  have a: "t div 60000 = m" using zdiv_zmult2_eq [of 60 t 1000] by (simp add: s_def m_def)
  have b: "t div 3600000 = h" using zdiv_zmult2_eq [of 60 t 60000] a by (simp add: h_def)
  have c: "t div 86400000 = h div 24" using zdiv_zmult2_eq [of 24 t 3600000] b by simp
  have "s = 60 * m + s mod 60" "m = 60 * h + m mod 60" "h = 24 * (h div 24) + h mod 24"
    by (simp_all add: m_def h_def)
  then have "s = 86400 * (h div 24) + 3600 * (h mod 24) + 60 * (m mod 60) + s mod 60"
    by linarith
  then show ?thesis unfolding a b c unfolding s_def .
qed

lemma iso_time_inj:
  assumes "iso_time a = iso_time b"
  shows "(a div 3600000) mod 24 = (b div 3600000) mod 24"
    and "(a div 60000) mod 60 = (b div 60000) mod 60"
    and "(a div 1000) mod 60 = (b div 1000) mod 60"
proof -
  have e: "pad 2 (nat ((a div 3600000) mod 24)) = pad 2 (nat ((b div 3600000) mod 24))"
    "pad 2 (nat ((a div 60000) mod 60)) = pad 2 (nat ((b div 60000) mod 60))"
    "pad 2 (nat ((a div 1000) mod 60)) = pad 2 (nat ((b div 1000) mod 60))"
    using assms by (simp_all add: iso_time_def)
  have r: "0 \<le> x mod 24 \<and> x mod 24 < 100" "0 \<le> x mod 60 \<and> x mod 60 < 100" for x :: int
    using pos_mod_bound [of 24 x] pos_mod_bound [of 60 x] pos_mod_sign [of 24 x]
      pos_mod_sign [of 60 x] by linarith+
  show "(a div 3600000) mod 24 = (b div 3600000) mod 24"
    using e(1) r(1) by (intro pad2_inj) simp_all
  show "(a div 60000) mod 60 = (b div 60000) mod 60"
    using e(2) r(2) by (intro pad2_inj) simp_all
  show "(a div 1000) mod 60 = (b div 1000) mod 60"
    using e(3) r(2) by (intro pad2_inj) simp_all
qed

lemma same_day_iff:
  assumes "four_digit_year a" "four_digit_year b"
  shows "take 10 (toISOString a) = take 10 (toISOString b) \<longleftrightarrow> day a = day b"
  using iso_date_inj [OF four_digit_year_day [OF assms(1)] four_digit_year_day [OF assms(2)]]
  by (auto simp add: take10_iso assms)

lemma toISOString_seconds:
  "toISOString t = iso_seconds (t div 1000) @ ''.'' @ pad 3 (nat (t mod 1000)) @ ''Z''"
proof -
  have f: "t div 1000 div 60 = t div 60000" "t div 1000 div 3600 = t div 3600000"
    "t div 1000 div 86400 = t div 86400000"
    using zdiv_zmult2_eq [of 60 t 1000] zdiv_zmult2_eq [of 3600 t 1000]
      zdiv_zmult2_eq [of 86400 t 1000] by simp_all
  show ?thesis
    by (simp only: toISOString_def iso_seconds_def day_def f append_assoc)
qed

lemma length_iso_seconds: "19 \<le> length (iso_seconds s)"
  by (simp add: iso_seconds_def year_string_def)

lemma take_prefix: "n \<le> length xs \<Longrightarrow> take n (xs @ ys) = take n xs"
  by simp

lemma take19_seconds: "take 19 (toISOString t) = take 19 (iso_seconds (t div 1000))"
  by (simp only: toISOString_seconds take_prefix [OF length_iso_seconds])

lemma same_second_same_prefix:
  "a div 1000 = b div 1000 \<Longrightarrow> take 19 (toISOString a) = take 19 (toISOString b)"
  by (simp add: take19_seconds)

lemma combine_seconds:
  fixes s :: int
  assumes "s = 86400 * d + 3600 * h + 60 * m + r" "s' = 86400 * d' + 3600 * h' + 60 * m' + r'"
    and "d = d'" "h = h'" "m = m'" "r = r'"
  shows "s = s'"
  using assms by simp

lemma same_second_iff:
  assumes "four_digit_year a" "four_digit_year b"
  shows "take 19 (toISOString a) = take 19 (toISOString b) \<longleftrightarrow> a div 1000 = b div 1000"
proof
  assume "take 19 (toISOString a) = take 19 (toISOString b)"
  then have d: "iso_date (day a) = iso_date (day b)" and t: "iso_time a = iso_time b"
    by (simp_all add: take19_iso assms)
  have "day a = day b"
    using iso_date_inj [OF four_digit_year_day [OF assms(1)] four_digit_year_day [OF assms(2)] d] .
  then have "a div 86400000 = b div 86400000" by (simp add: day_def)
  then show "a div 1000 = b div 1000"
    by (rule combine_seconds [OF seconds_split [of a] seconds_split [of b] _ iso_time_inj [OF t]])
next
  assume "a div 1000 = b div 1000"
  then show "take 19 (toISOString a) = take 19 (toISOString b)"
    by (rule same_second_same_prefix)
qed

section \<open>Field lemmas of the two calculators\<close>

lemma updateStatic_fields [simp]:
  "latitude (updateStatic h s) = latitude s"
  "longitude (updateStatic h s) = longitude s"
  "altitude (updateStatic h s) = altitude s"
  "date (updateStatic h s) = date s"
  "timezone (updateStatic h s) = timezone s"
  "latitude_trig (updateStatic h s) = latitude_trig s"
  "last_date (updateStatic h s) = last_date s"
  "sun_elevation (updateStatic h s) = sun_elevation s"
  "sun_azimuth (updateStatic h s) = sun_azimuth s"
  by (simp_all add: updateStatic_def Let_def)

lemma updateDynamic_fields [simp]:
  "latitude (updateDynamic h s) = latitude s"
  "longitude (updateDynamic h s) = longitude s"
  "altitude (updateDynamic h s) = altitude s"
  "date (updateDynamic h s) = date s"
  "timezone (updateDynamic h s) = timezone s"
  "latitude_trig (updateDynamic h s) = latitude_trig s"
  "last_date (updateDynamic h s) = last_date s"
  "sunrise (updateDynamic h s) = sunrise s"
  "sunset (updateDynamic h s) = sunset s"
  "solar_noon (updateDynamic h s) = solar_noon s"
  "solar_midnight (updateDynamic h s) = solar_midnight s"
  "civil_dawn (updateDynamic h s) = civil_dawn s"
  "civil_dusk (updateDynamic h s) = civil_dusk s"
  "nautical_dawn (updateDynamic h s) = nautical_dawn s"
  "nautical_dusk (updateDynamic h s) = nautical_dusk s"
  "astronomical_dawn (updateDynamic h s) = astronomical_dawn s"
  "astronomical_dusk (updateDynamic h s) = astronomical_dusk s"
  by (simp_all add: updateDynamic_def Let_def)

lemma construct_fields [simp]:
  "latitude (construct_engine h c d tz) = vec_x c * 0.01745329"
  "longitude (construct_engine h c d tz) = vec_y c * 0.01745329"
  "altitude (construct_engine h c d tz) = (case vec_z c of Some a \<Rightarrow> a | None \<Rightarrow> 0)"
  "date (construct_engine h c d tz) = d"
  "timezone (construct_engine h c d tz) =
     (case tz of None \<Rightarrow> - host_tzo h d | Some v \<Rightarrow> if v = 0 then - host_tzo h d else \<lfloor>v\<rfloor>)"
  "latitude_trig (construct_engine h c d tz) = trig_of (vec_x c * 0.01745329)"
  "last_date (construct_engine h c d tz) = ''1970-01-01T00:00:00Z''"
  by (simp_all add: construct_engine_def initial_engine_def)

lemma engine45_fields:
  "latitude engine45 = 0.78539805" "longitude engine45 = 0" "altitude engine45 = 0"
  "timezone engine45 = 60" "date engine45 = 1710928800000"
  "last_date engine45 = ''1970-01-01T00:00:00Z''"
  by (simp_all add: engine45_def)

lemma engine45_100m_fields:
  "latitude engine45_100m = 0.78539805" "longitude engine45_100m = 0"
  "altitude engine45_100m = 100" "timezone engine45_100m = 60"
  by (simp_all add: engine45_100m_def)

section \<open>The event timestamps of the Daily calculator\<close>

lemma computeTime_minutes: "computeTime s g a = event_minutes s g a"
  by (simp add: computeTime_def event_minutes_def)

lemma constant_zone_offsets:
  assumes "constant_zone h z"
  shows "host_tzo h t = z" "host_local_tzo h t = z"
  using assms by (simp_all add: constant_zone_def)

lemma constant_zone_times:
  assumes "constant_zone h z"
  shows "local_time h t = t - z * 60000" "utc_time h t = t + z * 60000"
  by (simp_all add: local_time_def utc_time_def constant_zone_offsets [OF assms])

lemma constant_zone_midnight:
  assumes "constant_zone h z"
  shows "local_midnight h t = day (t - z * 60000) * 86400000 + z * 60000"
  by (simp add: local_midnight_def constant_zone_times [OF assms])

lemma constant_zone_setters:
  assumes "constant_zone h z"
  shows "setMinutes h t m = time_clip (t + (m - getMinutes h t) * 60000)"
    "setSeconds h t k = time_clip (t + (k - getSeconds h t) * 1000)"
  by (simp_all add: setMinutes_def setSeconds_def constant_zone_times [OF assms])

lemma utc_host_constant: "constant_zone utc_host 0"
  by (simp add: constant_zone_def utc_host_def)

lemma time_template_midnight:
  assumes "\<not> (0 \<le> getFullYear h t \<and> getFullYear h t \<le> 99)"
  shows "new_Date h (getFullYear h t) (getMonth h t) (getDate h t)
           = time_clip (local_midnight h t)"
proof -
  have y: "(if 0 \<le> getFullYear h t \<and> getFullYear h t \<le> 99 then 1900 + getFullYear h t
            else getFullYear h t) = getFullYear h t"
    using assms by simp
  have "make_day (getFullYear h t) (getMonth h t) (getDate h t + 0) = day (local_time h t) + 0"
    unfolding getFullYear_def getMonth_def getDate_def by (rule make_day_inverse)
  then show ?thesis
    unfolding new_Date_def y local_midnight_def by simp
qed

lemma whole_minute_fields:
  assumes "constant_zone h z"
  shows "getMinutes h (d * 86400000 + z * 60000 + m * 60000) = m mod 60"
    and "getSeconds h (d * 86400000 + z * 60000 + m * 60000) = 0"
proof -
  have a: "d * 86400000 + z * 60000 + m * 60000 - z * 60000
      = (m + 24 * d * 60) * 60000" by (simp add: algebra_simps)
  have b: "(m + 24 * d * 60) * 60000 div 1000 = (m + 24 * d * 60) * 60"
    by simp
  have c: "(m + 24 * d * 60) mod 60 = m mod 60" by (rule mod_mult_self1)
  show "getMinutes h (d * 86400000 + z * 60000 + m * 60000) = m mod 60"
    unfolding getMinutes_def constant_zone_times(1) [OF assms] a using c by simp
  show "getSeconds h (d * 86400000 + z * 60000 + m * 60000) = 0"
    unfolding getSeconds_def constant_zone_times(1) [OF assms] a b by simp
qed

lemma trunc_fraction_seconds:
  "js_trunc ((m - real_of_int \<lfloor>m\<rfloor>) * 60) = \<lfloor>(m - real_of_int \<lfloor>m\<rfloor>) * 60\<rfloor>"
  by (simp add: js_trunc_def)

lemma floor_fraction_seconds:
  "\<lfloor>(m - real_of_int \<lfloor>m\<rfloor>) * 60\<rfloor> = \<lfloor>60 * m\<rfloor> - 60 * \<lfloor>m\<rfloor>"
proof -
  have e: "(m - real_of_int \<lfloor>m\<rfloor>) * 60 = 60 * m - real_of_int (60 * \<lfloor>m\<rfloor>)"
    by (simp add: algebra_simps)
  show ?thesis unfolding e by (rule floor_diff_of_int)
qed

lemma make_event_midnight:
  assumes "constant_zone h z"
  shows "make_event h (Some (local_midnight h t)) (Some m) =
     time_clip (local_midnight h t + 60000 * \<lfloor>m\<rfloor>) \<bind>
       (\<lambda>t1. time_clip (t1 + 1000 * \<lfloor>(m - real_of_int \<lfloor>m\<rfloor>) * 60\<rfloor>))"
proof -
  note lm = constant_zone_midnight [OF assms]
  have m0: "getMinutes h (local_midnight h t) = 0"
    using whole_minute_fields(1) [OF assms, of "day (t - z * 60000)" 0]
    by (simp add: lm)
  have s0: "getSeconds h (local_midnight h t + 60000 * \<lfloor>m\<rfloor>) = 0"
    using whole_minute_fields(2) [OF assms, of "day (t - z * 60000)" "\<lfloor>m\<rfloor>"]
    by (simp add: lm mult.commute)
  have a: "setMinutes h (local_midnight h t) \<lfloor>m\<rfloor> = time_clip (local_midnight h t + 60000 * \<lfloor>m\<rfloor>)"
    by (simp add: constant_zone_setters(1) [OF assms] m0 mult.commute)
  have b: "time_clip (local_midnight h t + 60000 * \<lfloor>m\<rfloor>) = Some t1 \<Longrightarrow>
      setSeconds h t1 k = time_clip (t1 + 1000 * k)" for t1 k
    using s0 by (auto simp add: constant_zone_setters(2) [OF assms] time_clip_def split: if_splits)
  have c: "js_trunc (m * 60 - real_of_int \<lfloor>m\<rfloor> * 60) = \<lfloor>m * 60 - real_of_int \<lfloor>m\<rfloor> * 60\<rfloor>"
    using trunc_fraction_seconds [of m] by (simp add: algebra_simps)
  show ?thesis
    by (cases "time_clip (local_midnight h t + 60000 * \<lfloor>m\<rfloor>)")
      (simp_all add: make_event_def a b c)
qed

lemma eqtime_sum_bound:
  fixes a b c d :: real
  assumes "\<bar>a\<bar> \<le> 1" "\<bar>b\<bar> \<le> 1" "\<bar>c\<bar> \<le> 1" "\<bar>d\<bar> \<le> 1"
  shows "\<bar>229.18 * (0.000075 + 0.001868 * a - 0.032077 * b - 0.014615 * c - 0.040849 * d)\<bar> \<le> 21"
proof -
  have "\<bar>0.000075 + 0.001868 * a - 0.032077 * b - 0.014615 * c - 0.040849 * d\<bar> \<le> 0.09"
    using assms unfolding abs_le_iff by (simp; linarith)
  then show ?thesis unfolding abs_mult by simp
qed

lemma eqtime_bound: "\<bar>eqtime g\<bar> \<le> 21"
  unfolding eqtime_def by (rule eqtime_sum_bound) simp_all

lemma declination_sum_bound:
  fixes a b c d e f :: real
  assumes "\<bar>a\<bar> \<le> 1" "\<bar>b\<bar> \<le> 1" "\<bar>c\<bar> \<le> 1" "\<bar>d\<bar> \<le> 1" "\<bar>e\<bar> \<le> 1" "\<bar>f\<bar> \<le> 1"
  shows "\<bar>0.006918 - 0.399912 * a + 0.070257 * b - 0.006758 * c + 0.000907 * d
          - 0.002697 * e + 0.00148 * f\<bar> \<le> 0.49"
  using assms unfolding abs_le_iff by (simp; linarith)

lemma declination_bound: "\<bar>declination g\<bar> \<le> 0.49"
  unfolding declination_def by (rule declination_sum_bound) simp_all

lemma cos_declination_pos: "0 < cos (declination g)"
proof -
  have "\<bar>declination g\<bar> < pi / 2"
    using declination_bound [of g] pi_ge_two by (simp; linarith)
  then show ?thesis by (intro cos_gt_zero_pi) (simp_all add: abs_less_iff)
qed

lemma computeHourAngle_range:
  assumes "computeHourAngle s g thr = Some a"
  shows "0 \<le> a" "a \<le> 230"
proof -
  obtain v where v: "- 1 \<le> v" "v \<le> 1" "a = arccos v * 57.2957795"
    using assms by (auto simp add: computeHourAngle_def js_acos_def js_div_def
        split: bind_splits if_splits)
  have "0 \<le> arccos v" "arccos v \<le> pi" using v(1,2) by (simp_all add: arccos_lbound arccos_ubound)
  then show "0 \<le> a" "a \<le> 230" using v(3) pi_less_4 by simp_all
qed

lemma local_midnight_bound:
  assumes "constant_zone h z" and "modern h t"
  shows "\<bar>local_midnight h t\<bar> \<le> 300000000000000"
proof -
  obtain q r where qr: "(t - z * 60000) div 86400000 = q" "t - z * 60000 = 86400000 * q + r"
      "0 \<le> r" "r < 86400000"
    by (rule quot_rem [of 86400000 "t - z * 60000"]) simp
  have lm: "local_midnight h t = 86400000 * q + z * 60000"
    by (simp add: constant_zone_midnight [OF assms(1)] day_def qr(1))
  have z: "- 1440 \<le> z" "z \<le> 1440"
    using assms(2) by (simp_all add: modern_def abs_le_iff constant_zone_offsets [OF assms(1)])
  have t: "- 62167219200000 \<le> t" "t < 253402300800000"
    using assms(2) by (simp_all add: modern_def four_digit_year_def)
  show ?thesis unfolding lm abs_le_iff using qr(2) z t qr(3,4) by linarith
qed

lemma no_clip:
  fixes T :: int and m :: real
  assumes "\<bar>T\<bar> \<le> 300000000000000" and "\<bar>m\<bar> \<le> 3000"
  shows "time_clip (T + 60000 * \<lfloor>m\<rfloor>) \<bind>
           (\<lambda>t1. time_clip (t1 + 1000 * \<lfloor>(m - real_of_int \<lfloor>m\<rfloor>) * 60\<rfloor>))
         = Some (T + 60000 * \<lfloor>m\<rfloor> + 1000 * \<lfloor>(m - real_of_int \<lfloor>m\<rfloor>) * 60\<rfloor>)"
proof -
  have fm: "- 3000 \<le> \<lfloor>m\<rfloor>" "\<lfloor>m\<rfloor> \<le> 3000"
    using assms(2) by (simp_all add: abs_le_iff le_floor_iff floor_le_iff)
  have "m - real_of_int \<lfloor>m\<rfloor> < 1" by linarith
  then have "0 \<le> (m - real_of_int \<lfloor>m\<rfloor>) * 60" "(m - real_of_int \<lfloor>m\<rfloor>) * 60 < 60"
    by simp_all
  then have fs: "0 \<le> \<lfloor>(m - real_of_int \<lfloor>m\<rfloor>) * 60\<rfloor>" "\<lfloor>(m - real_of_int \<lfloor>m\<rfloor>) * 60\<rfloor> < 60"
    by (simp_all add: floor_less_iff)
  have T: "- 300000000000000 \<le> T" "T \<le> 300000000000000"
    using assms(1) by (simp_all add: abs_le_iff)
  have a: "\<bar>T + 60000 * \<lfloor>m\<rfloor>\<bar> \<le> 8640000000000000"
    unfolding abs_le_iff using fm T by linarith
  have b: "\<bar>T + 60000 * \<lfloor>m\<rfloor> + 1000 * \<lfloor>(m - real_of_int \<lfloor>m\<rfloor>) * 60\<rfloor>\<bar> \<le> 8640000000000000"
    unfolding abs_le_iff using fm fs T by linarith
  show ?thesis using a b by (simp add: time_clip_def)
qed

lemma event_minutes_bound:
  assumes "\<bar>longitude s\<bar> \<le> 4" and "\<bar>a\<bar> \<le> 230"
  shows "\<bar>event_minutes s g a\<bar> \<le> 3000"
proof -
  have l: "\<bar>longitude s * 57.2957795\<bar> \<le> 230"
    using assms(1) unfolding abs_mult by simp
  show ?thesis
    using l assms(2) eqtime_bound [of g] unfolding event_minutes_def abs_le_iff
    by (simp; linarith)
qed

lemma make_event_modern:
  assumes "constant_zone h z" and "modern h t" and "\<bar>m\<bar> \<le> 3000"
  shows "make_event h (new_Date h (getFullYear h t) (getMonth h t) (getDate h t)) (Some m) =
     Some (local_midnight h t + 60000 * \<lfloor>m\<rfloor> + 1000 * \<lfloor>(m - real_of_int \<lfloor>m\<rfloor>) * 60\<rfloor>)"
proof -
  have y: "\<not> (0 \<le> getFullYear h t \<and> getFullYear h t \<le> 99)"
    using assms(2) by (simp add: modern_def)
  have b: "\<bar>local_midnight h t\<bar> \<le> 300000000000000"
    using assms(1,2) by (rule local_midnight_bound)
  have "new_Date h (getFullYear h t) (getMonth h t) (getDate h t) = Some (local_midnight h t)"
    using time_template_midnight [OF y] b by (simp add: time_clip_def)
  then show ?thesis
    by (simp only: make_event_midnight [OF assms(1)] no_clip [OF b assms(3)])
qed

lemma event_stamp:
  assumes "constant_zone h z" and "modern h (date s)" and "\<bar>longitude s\<bar> \<le> 4"
    and "\<And>g a. hourAngle g = Some a \<Longrightarrow> \<bar>a\<bar> \<le> 230"
  shows "make_event h (new_Date h (getFullYear h (date s)) (getMonth h (date s))
                          (getDate h (date s)))
           (do { g \<leftarrow> static_fract_year h (date s);
                 a \<leftarrow> static_fract_year h (date s) \<bind> hourAngle;
                 Some (computeTime s g a) })
         = stamp h s hourAngle"
proof (cases "static_fract_year h (date s)")
  case None
  then show ?thesis by (simp add: stamp_def make_event_def split: bind_splits)
next
  case (Some g)
  show ?thesis
  proof (cases "hourAngle g")
    case None
    then show ?thesis using Some by (simp add: stamp_def make_event_def split: bind_splits)
  next
    case (Some a)
    have "\<bar>event_minutes s g a\<bar> \<le> 3000"
      using assms(3) assms(4) [OF Some] by (rule event_minutes_bound)
    then show ?thesis
      using Some \<open>static_fract_year h (date s) = Some g\<close> make_event_modern [OF assms(1,2)]
      by (simp add: stamp_def computeTime_minutes)
  qed
qed

lemma event_stamp_fixed:
  assumes "constant_zone h z" and "modern h (date s)" and "\<bar>longitude s\<bar> \<le> 4"
    and "\<bar>c\<bar> \<le> 230"
  shows "make_event h (new_Date h (getFullYear h (date s)) (getMonth h (date s))
                          (getDate h (date s)))
           (do { g \<leftarrow> static_fract_year h (date s);
                 a \<leftarrow> Some c;
                 Some (computeTime s g a) })
         = stamp h s (\<lambda>g. Some c)"
proof -
  have "(do { g \<leftarrow> static_fract_year h (date s); a \<leftarrow> Some c; Some (computeTime s g a) })
      = (do { g \<leftarrow> static_fract_year h (date s);
              a \<leftarrow> static_fract_year h (date s) \<bind> (\<lambda>g. Some c);
              Some (computeTime s g a) })"
    by (cases "static_fract_year h (date s)") simp_all
  then show ?thesis
    using event_stamp [OF assms(1,2,3), of "\<lambda>g. Some c"] assms(4) by simp
qed

lemma dusk_angle:
  "map_option uminus (fract \<bind> (\<lambda>g. computeHourAngle s g thr))
     = fract \<bind> (\<lambda>g. map_option uminus (computeHourAngle s g thr))"
  by (cases fract) simp_all

lemma floor_seconds: "60000 * \<lfloor>m\<rfloor> + 1000 * \<lfloor>(m - real_of_int \<lfloor>m\<rfloor>) * 60\<rfloor> = 1000 * \<lfloor>60 * m\<rfloor>"
  unfolding floor_fraction_seconds by simp

text \<open>The last day of 2023 on the UTC host: the year fraction of the Daily
  calculator is the whole year.\<close>

lemma dec31_calendar:
  "getFullYear utc_host 1704024000000 = 2023"
  "getMonth utc_host 1704024000000 = 11"
  "getDate utc_host 1704024000000 = 31"
  by (simp_all add: getFullYear_def getMonth_def getDate_def local_time_def utc_host_def day_def
      year_from_day_def day_from_year_def month_of_day_def date_of_day_def day_within_year_def
      month_from_day_def month_start_def in_leap_year_def Let_def)

lemma dec31_new_Date:
  "new_Date utc_host 2023 0 1 = Some 1672531200000"
  "new_Date utc_host 2024 0 1 = Some 1704067200000"
  "new_Date utc_host 2023 11 32 = Some 1704067200000"
  "new_Date utc_host 2023 11 31 = Some 1703980800000"
  by (simp_all add: new_Date_def utc_time_def make_day_def time_clip_def utc_host_def
      day_from_year_def month_start_def in_leap_year_def Let_def)

lemma dec31_fract_year: "static_fract_year utc_host 1704024000000 = Some (2 * pi)"
  by (simp add: static_fract_year_def dec31_calendar dec31_new_Date js_div_def)








lemma updateStatic_stamps:
  assumes "constant_zone h z" and "modern h (date s)" and "\<bar>longitude s\<bar> \<le> 4"
  shows "sunrise (updateStatic h s) = stamp h s (\<lambda>g. computeHourAngle s g (- 0.0145381))
    \<and> sunset (updateStatic h s)
        = stamp h s (\<lambda>g. map_option uminus (computeHourAngle s g (- 0.0145381)))
    \<and> solar_noon (updateStatic h s) = stamp h s (\<lambda>g. Some 0)
    \<and> solar_midnight (updateStatic h s) = stamp h s (\<lambda>g. Some (- 180))
    \<and> civil_dawn (updateStatic h s) = stamp h s (\<lambda>g. computeHourAngle s g (- 0.1045285))
    \<and> civil_dusk (updateStatic h s)
        = stamp h s (\<lambda>g. map_option uminus (computeHourAngle s g (- 0.1045285)))
    \<and> nautical_dawn (updateStatic h s) = stamp h s (\<lambda>g. computeHourAngle s g (- 0.2079117))
    \<and> nautical_dusk (updateStatic h s)
        = stamp h s (\<lambda>g. map_option uminus (computeHourAngle s g (- 0.2079117)))
    \<and> astronomical_dawn (updateStatic h s)
        = stamp h s (\<lambda>g. computeHourAngle s g (- 0.309017))
    \<and> astronomical_dusk (updateStatic h s)
        = stamp h s (\<lambda>g. map_option uminus (computeHourAngle s g (- 0.309017)))"
proof -
  have dawn: "\<bar>a\<bar> \<le> 230" if "computeHourAngle s g thr = Some a" for g a thr
    using computeHourAngle_range [OF that] by (simp add: abs_le_iff)
  have dusk: "\<bar>a\<bar> \<le> 230" if "map_option uminus (computeHourAngle s g thr) = Some a"
    for g a thr
    using that dawn [of g thr] by auto
  note rise = event_stamp [OF assms, of "\<lambda>g. computeHourAngle s g thr" for thr, OF dawn]
  note set = event_stamp [OF assms, of "\<lambda>g. map_option uminus (computeHourAngle s g thr)" for thr,
      OF dusk]
  note noon = event_stamp_fixed [OF assms, of 0]
  note midnight = event_stamp_fixed [OF assms, of "- 180"]
  show ?thesis
    unfolding updateStatic_def Let_def dusk_angle
    by (simp only: rise set noon midnight) simp
qed




text \<open>The fixed offset is needed. On the host that moves its clock forward at
  2024-03-31T01:00:00Z, the local midnight of that day is 2024-03-30T23:00:00Z, and
  the event of 370.5 minutes is set to the local time 06:10:30, which is 310.5
  minutes after that midnight.\<close>

lemma dst_day_event:
  "new_Date dst_host 2024 2 31 = Some 1711839600000"
  "make_event dst_host (Some 1711839600000) (Some 370.5) = Some (1711839600000 + 18630000)"
  by (simp_all add: new_Date_def make_event_def setMinutes_def setSeconds_def getMinutes_def
      getSeconds_def local_time_def utc_time_def time_clip_def dst_host_def js_trunc_def
      make_day_def day_from_year_def month_start_def in_leap_year_def)

section \<open>Hour angles without a solution\<close>

lemma pi_ge_three: "3 \<le> pi"
proof -
  have "sin (pi / 6) \<le> pi / 6" by (rule sin_x_le_x) simp
  then show ?thesis by (simp add: sin_30)
qed

lemma cos_lower_bound: "1 - x\<^sup>2 / 2 \<le> cos (x::real)"
proof -
  have "\<bar>sin (x / 2)\<bar> \<le> \<bar>x / 2\<bar>" by (rule abs_sin_x_le_abs_x)
  then have "(sin (x / 2))\<^sup>2 \<le> (x / 2)\<^sup>2" by (simp only: abs_le_square_iff)
  moreover have "cos x = 1 - 2 * (sin (x / 2))\<^sup>2"
    using cos_double_sin [of "x / 2"] by simp
  ultimately show ?thesis by (simp add: power2_eq_square)
qed

lemma cos_upper_bound: "cos (x::real) \<le> 1 - x\<^sup>2 / 2 + x ^ 4 / 24"
proof -
  obtain t where t: "cos x = (\<Sum>m<4. cos_coeff m * x ^ m) + (cos (t + 1 / 2 * real 4 * pi) / fact 4) * x ^ 4"
    using Maclaurin_cos_expansion [of x 4] by blast
  have s: "(\<Sum>m<4. cos_coeff m * x ^ m) = 1 - x\<^sup>2 / 2"
    by (simp add: eval_nat_numeral cos_coeff_Suc sin_coeff_Suc)
  have c: "cos (t + 1 / 2 * real 4 * pi) = cos t"
    by simp
  have f: "fact 4 = (24::real)" by (simp add: eval_nat_numeral)
  have "cos t * x ^ 4 \<le> 1 * x ^ 4"
    by (rule mult_right_mono) simp_all
  then have "cos t / 24 * x ^ 4 \<le> x ^ 4 / 24" by simp
  then show ?thesis unfolding t s c f by simp
qed

lemma computeHourAngle_argument:
  "computeHourAngle s g thr = acos_argument s g thr \<bind> js_acos \<bind> (\<lambda>a. Some (a * 57.2957795))"
  by (simp add: computeHourAngle_def acos_argument_def)

lemma out_of_range_no_angle:
  "out_of_range (acos_argument s g thr) \<Longrightarrow> computeHourAngle s g thr = None"
  by (auto simp add: computeHourAngle_argument out_of_range_def js_acos_def split: option.splits)

lemma make_event_None [simp]: "make_event h tmpl None = None"
  by (simp add: make_event_def split: bind_splits)

lemma shifted_None [simp]: "shifted h s None tz = None"
  by (simp add: shifted_def)

lemma no_angle_no_event:
  assumes "static_fract_year h (date s) = Some g" and "computeHourAngle s g thr = None"
  shows "make_event h tmpl
           (do { g \<leftarrow> static_fract_year h (date s);
                 a \<leftarrow> static_fract_year h (date s) \<bind> (\<lambda>g. computeHourAngle s g thr);
                 Some (computeTime s g a) }) = None"
    and "make_event h tmpl
           (do { g \<leftarrow> static_fract_year h (date s);
                 a \<leftarrow> map_option uminus
                        (static_fract_year h (date s) \<bind> (\<lambda>g. computeHourAngle s g thr));
                 Some (computeTime s g a) }) = None"
  using assms by simp_all

lemma no_angle_events:
  assumes "static_fract_year h (date s) = Some g"
  shows "computeHourAngle s g (- 0.0145381) = None \<Longrightarrow>
           sunrise (updateStatic h s) = None \<and> sunset (updateStatic h s) = None"
    and "computeHourAngle s g (- 0.1045285) = None \<Longrightarrow>
           civil_dawn (updateStatic h s) = None \<and> civil_dusk (updateStatic h s) = None"
    and "computeHourAngle s g (- 0.2079117) = None \<Longrightarrow>
           nautical_dawn (updateStatic h s) = None \<and> nautical_dusk (updateStatic h s) = None"
    and "computeHourAngle s g (- 0.309017) = None \<Longrightarrow>
           astronomical_dawn (updateStatic h s) = None
           \<and> astronomical_dusk (updateStatic h s) = None"
  unfolding updateStatic_def Let_def
  by (simp_all only: no_angle_no_event [OF assms]) simp_all

text \<open>
  C4, as the code has it. \<open>computeHourAngle\<close> applies no clamp: when the argument
  of the arccosine of a threshold lies outside [-1, 1], the hour angle is not a
  number, both events of that threshold are stored as Invalid Dates, and their
  accessors return an Invalid Date for every timezone argument.
\<close>

theorem no_solution_leaks_invalid_date:
  assumes "static_fract_year h (date s) = Some g"
  shows "(out_of_range (acos_argument s g (- 0.0145381)) \<longrightarrow>
            computeHourAngle s g (- 0.0145381) = None
            \<and> sunrise (updateStatic h s) = None \<and> sunset (updateStatic h s) = None
            \<and> getSunrise h (updateStatic h s) tz = None
            \<and> getSunset h (updateStatic h s) tz = None)
    \<and> (out_of_range (acos_argument s g (- 0.1045285)) \<longrightarrow>
            computeHourAngle s g (- 0.1045285) = None
            \<and> civil_dawn (updateStatic h s) = None \<and> civil_dusk (updateStatic h s) = None
            \<and> getCivilDawn h (updateStatic h s) tz = None
            \<and> getCivilDusk h (updateStatic h s) tz = None)
    \<and> (out_of_range (acos_argument s g (- 0.2079117)) \<longrightarrow>
            computeHourAngle s g (- 0.2079117) = None
            \<and> nautical_dawn (updateStatic h s) = None \<and> nautical_dusk (updateStatic h s) = None
            \<and> getNauticalDawn h (updateStatic h s) tz = None
            \<and> getNauticalDusk h (updateStatic h s) tz = None)
    \<and> (out_of_range (acos_argument s g (- 0.309017)) \<longrightarrow>
            computeHourAngle s g (- 0.309017) = None
            \<and> astronomical_dawn (updateStatic h s) = None
            \<and> astronomical_dusk (updateStatic h s) = None
            \<and> getAstronomicalDawn h (updateStatic h s) tz = None
            \<and> getAstronomicalDusk h (updateStatic h s) tz = None)"
  using no_angle_events [OF assms] out_of_range_no_angle [of s g]
  by (simp add: getSunrise_def getSunset_def getCivilDawn_def getCivilDusk_def
      getNauticalDawn_def getNauticalDusk_def getAstronomicalDawn_def getAstronomicalDusk_def)

text \<open>At 80 N on 2023-12-31 the declination is -0.402449 and the argument of the
  horizon threshold is above 1 (polar night).\<close>

lemma declination_two_pi: "declination (2 * pi) = - 0.402449"
  by (simp add: declination_def)

lemma polar_night_cosines:
  "0 < cos (0.402449::real)" "0 < cos (1.3962632::real)"
  "cos (0.402449 + 1.3962632 :: real) < - 0.0145381"
proof -
  show "0 < cos (0.402449::real)"
    using cos_lower_bound [of "0.402449"] by (simp add: power2_eq_square)
  show "0 < cos (1.3962632::real)"
    using cos_lower_bound [of "1.3962632"] by (simp add: power2_eq_square)
  have "cos (1.7987122::real) < - 0.0145381"
    using cos_upper_bound [of "1.7987122"] by (simp add: power2_eq_square power4_eq_xxxx)
  then show "cos (0.402449 + 1.3962632 :: real) < - 0.0145381" by simp
qed

lemma polar_night_argument:
  assumes "latitude_trig s = trig_of 1.3962632" and "altitude s = 0"
  shows "out_of_range (acos_argument s (2 * pi) (- 0.0145381))"
proof -
  let ?a = "0.402449::real" and ?L = "1.3962632::real"
  note c = polar_night_cosines
  have p: "0 < cos ?a * cos ?L" using c(1,2) by simp
  have "cos ?a * cos ?L - sin ?a * sin ?L < - 0.0145381"
    using c(3) by (simp only: cos_add)
  then have "1 * (cos ?a * cos ?L) < - 0.0145381 + sin ?a * sin ?L" by simp
  then have "1 < (- 0.0145381 + sin ?a * sin ?L) / (cos ?a * cos ?L)"
    using p by (simp only: pos_less_divide_eq)
  also have "(- 0.0145381 + sin ?a * sin ?L) / (cos ?a * cos ?L)
      = (- 0.0145381) / (cos ?a * cos ?L) + (sin ?a / cos ?a) * (sin ?L / cos ?L)"
    using c(1,2) by (simp add: field_simps)
  finally have big: "1 < (- 0.0145381) / (cos ?a * cos ?L) + (sin ?a / cos ?a) * (sin ?L / cos ?L)" .
  have "acos_argument s (2 * pi) (- 0.0145381)
      = Some ((- 0.0145381) / (cos ?a * cos ?L) + (sin ?a / cos ?a) * (sin ?L / cos ?L))"
    using c(1,2) by (simp add: acos_argument_def assms trig_of_def js_div_def declination_two_pi)
  then show ?thesis using big by (simp add: out_of_range_def)
qed

lemma initial80_fields:
  "date (initial_engine utc_host \<lparr> vec_x = 80, vec_y = 0, vec_z = Some 0 \<rparr> 1704024000000 (Some 60))
     = 1704024000000"
  "latitude_trig (initial_engine utc_host \<lparr> vec_x = 80, vec_y = 0, vec_z = Some 0 \<rparr>
                    1704024000000 (Some 60)) = trig_of 1.3962632"
  "altitude (initial_engine utc_host \<lparr> vec_x = 80, vec_y = 0, vec_z = Some 0 \<rparr>
               1704024000000 (Some 60)) = 0"
  by (simp_all add: initial_engine_def)

text \<open>So the engine built there has no sunrise.\<close>

theorem no_solution_leaks_invalid_date_witness:
  "static_fract_year utc_host (date (initial_engine utc_host
       \<lparr> vec_x = 80, vec_y = 0, vec_z = Some 0 \<rparr> 1704024000000 (Some 60))) = Some (2 * pi)
   \<and> out_of_range (acos_argument (initial_engine utc_host
       \<lparr> vec_x = 80, vec_y = 0, vec_z = Some 0 \<rparr> 1704024000000 (Some 60)) (2 * pi) (- 0.0145381))
   \<and> sunrise (updateStatic utc_host (initial_engine utc_host
       \<lparr> vec_x = 80, vec_y = 0, vec_z = Some 0 \<rparr> 1704024000000 (Some 60))) = None
   \<and> getSunrise utc_host (updateStatic utc_host (initial_engine utc_host
       \<lparr> vec_x = 80, vec_y = 0, vec_z = Some 0 \<rparr> 1704024000000 (Some 60))) None = None"
proof -
  let ?s = "initial_engine utc_host \<lparr> vec_x = 80, vec_y = 0, vec_z = Some 0 \<rparr> 1704024000000 (Some 60)"
  have g: "static_fract_year utc_host (date ?s) = Some (2 * pi)"
    by (simp add: initial80_fields dec31_fract_year)
  have o: "out_of_range (acos_argument ?s (2 * pi) (- 0.0145381))"
    by (intro polar_night_argument initial80_fields)
  from no_solution_leaks_invalid_date [OF g, of None] g o show ?thesis by simp
qed

text \<open>C4 as stated fails: \<open>getSunrise\<close> and \<open>getSunset\<close> of that engine return an
  Invalid Date.\<close>

theorem polar_night_invalid_sunrise:
  "sunrise engine80_dec31 = None
   \<and> getSunrise utc_host engine80_dec31 None = None
   \<and> getSunset utc_host engine80_dec31 (Some 0) = None"
proof -
  let ?s = "initial_engine utc_host \<lparr> vec_x = 80, vec_y = 0, vec_z = Some 0 \<rparr> 1704024000000 (Some 60)"
  have g: "static_fract_year utc_host (date ?s) = Some (2 * pi)"
    by (simp add: initial80_fields dec31_fract_year)
  have "computeHourAngle ?s (2 * pi) (- 0.0145381) = None"
    by (intro out_of_range_no_angle polar_night_argument initial80_fields)
  then have "sunrise (updateStatic utc_host ?s) = None \<and> sunset (updateStatic utc_host ?s) = None"
    by (rule no_angle_events(1) [OF g])
  then show ?thesis
    by (simp add: engine80_dec31_def construct_engine_def getSunrise_def getSunset_def)
qed

section \<open>setDateTime\<close>

text \<open>An Invalid Date makes \<open>toISOString\<close> throw. A valid Date makes the first
  assignment to a name that is not declared throw, whatever the engine and the
  instant.\<close>

lemma setDateTime_invalid: "setDateTime G h s None = Inl RangeError"
  by (simp add: setDateTime_def)

lemma setDateTime_undeclared:
  assumes "''newDate'' \<notin> G \<or> ''currentDate'' \<notin> G"
  shows "setDateTime G h s (Some t) = Inl ReferenceError"
  using assms by (auto simp add: setDateTime_def)

text \<open>
  C3. The claim has every call whose instant lies in another second store the
  instant and re-run the Instantaneous calculator. The class on its own declares
  neither \<open>newDate\<close> nor \<open>currentDate\<close>: on \<open>engine45\<close> (2024-03-20T10:00:00Z) the
  call for 10:00:01 throws a ReferenceError and stores nothing.
\<close>

theorem setDateTime_throws_ReferenceError:
  "(1710928801000::int) div 1000 \<noteq> date engine45 div 1000
   \<and> setDateTime {} utc_host engine45 (Some 1710928801000) = Inl ReferenceError"
  by (simp add: setDateTime_def engine45_fields)

text \<open>The rest of this section is about a scope that declares the two names, where
  the body of the method runs.\<close>

lemma setDateTime_declared:
  "setDateTime declared_names h s (Some t) =
     (let newDate = toISOString t;
          currentDate = toISOString (date s)
      in if take 19 currentDate \<noteq> take 19 newDate
         then (let s1 = updateDynamic h (s\<lparr> date := t \<rparr>)
               in if take 10 currentDate \<noteq> take 10 (last_date s1)
                  then Inr (updateStatic h (s1\<lparr> last_date := currentDate \<rparr>))
                  else Inr s1)
         else Inr s)"
  by (simp add: setDateTime_def declared_names_def)

lemma setDateTime_same_second:
  "t div 1000 = date s div 1000 \<Longrightarrow> setDateTime declared_names h s (Some t) = Inr s"
  using same_second_same_prefix [of t "date s"] by (simp add: setDateTime_declared Let_def)

lemma setDateTime_other_second:
  assumes "four_digit_year t" and "four_digit_year (date s)" and "t div 1000 \<noteq> date s div 1000"
  shows "setDateTime declared_names h s (Some t) =
     Inr (if take 10 (toISOString (date s)) \<noteq> take 10 (last_date s)
          then updateStatic h ((updateDynamic h (s\<lparr> date := t \<rparr>))
                                 \<lparr> last_date := toISOString (date s) \<rparr>)
          else updateDynamic h (s\<lparr> date := t \<rparr>))"
proof -
  have "take 19 (toISOString (date s)) \<noteq> take 19 (toISOString t)"
    using same_second_iff [OF assms(2,1)] assms(3) by simp
  then show ?thesis by (simp add: setDateTime_declared Let_def)
qed

text \<open>Outside the years 0000 to 9999 the ISO string has a sign and six digits of
  year, so its first 19 characters end with the minutes: two instants of the same
  minute are then taken for the same instant.\<close>

lemma extended_year_same_minute:
  assumes "a div 60000 = b div 60000"
    and "\<not> (0 \<le> year_from_day (day a) \<and> year_from_day (day a) \<le> 9999)"
  shows "take 19 (toISOString a) = take 19 (toISOString b)"
proof -
  define P where "P t = year_string (year_from_day (day t)) @ ''-'' @
     pad 2 (nat (month_of_day (day t) + 1)) @ ''-'' @
     pad 2 (nat (date_of_day (day t))) @ ''T'' @
     pad 2 (nat ((t div 3600000) mod 24)) @ '':'' @
     pad 2 (nat ((t div 60000) mod 60)) @ '':''" for t :: int
  have split: "toISOString t = P t @ (pad 2 (nat ((t div 1000) mod 60)) @ ''.'' @
      pad 3 (nat (t mod 1000)) @ ''Z'')" for t
    by (simp add: toISOString_def P_def)
  have d: "day a = day b" "a div 3600000 = b div 3600000"
    using zdiv_zmult2_eq [of 1440 a 60000] zdiv_zmult2_eq [of 1440 b 60000]
      zdiv_zmult2_eq [of 60 a 60000] zdiv_zmult2_eq [of 60 b 60000] assms(1)
    by (simp_all add: day_def)
  have P: "P a = P b" by (simp add: P_def d assms(1))
  have "length (year_string (year_from_day (day a))) = 7"
    using assms(2) by (auto simp add: year_string_def)
  then have "19 \<le> length (P a)" by (simp add: P_def)
  then show ?thesis
    unfolding split using P by (simp only: take_prefix)
qed

lemma year_10000: "year_from_day (day 253402300800000) = 10000"
  by (simp add: day_def year_from_day_def day_from_year_def Let_def)

lemma extended_year_minute_granularity:
  assumes "date s = 253402300800000"
  shows "setDateTime declared_names h s (Some 253402300801000) = Inr s"
  using extended_year_same_minute [of 253402300800000 253402300801000] year_10000
  by (simp add: setDateTime_declared Let_def assms)

lemma getSunPosition_updateStatic [simp]:
  "getSunPosition (updateStatic h s) = getSunPosition s"
  by (simp add: getSunPosition_def)

lemma getSunPosition_last_date [simp]:
  "getSunPosition (s\<lparr> last_date := d \<rparr>) = getSunPosition s"
  by (simp add: getSunPosition_def)

lemma updateDynamic_position_cong:
  assumes "dynamic_fract_year h (date s) = dynamic_fract_year h (date s')"
    and "getHours h (date s) = getHours h (date s')"
    and "getMinutes h (date s) = getMinutes h (date s')"
    and "getSeconds h (date s) = getSeconds h (date s')"
    and "latitude_trig s = latitude_trig s'" and "longitude s = longitude s'"
    and "timezone s = timezone s'" and "altitude s = altitude s'"
  shows "getSunPosition (updateDynamic h s) = getSunPosition (updateDynamic h s')"
  using assms by (simp add: getSunPosition_def updateDynamic_def hour_angle_def Let_def)

lemma new_year_fields:
  "dynamic_fract_year utc_host 1672531200000 = Some 0"
  "dynamic_fract_year utc_host 1704067200000 = Some 0"
  "getHours utc_host 1672531200000 = 0" "getHours utc_host 1704067200000 = 0"
  "getMinutes utc_host 1672531200000 = 0" "getMinutes utc_host 1704067200000 = 0"
  "getSeconds utc_host 1672531200000 = 0" "getSeconds utc_host 1704067200000 = 0"
  by (simp_all add: dynamic_fract_year_def getFullYear_def local_time_def utc_time_def
      utc_host_def day_def year_from_day_def day_from_year_def Let_def new_Date_def make_day_def
      month_start_def time_clip_def js_div_def getHours_def getMinutes_def getSeconds_def)

lemma engine45_ny2023_fields:
  "date engine45_ny2023 = 1672531200000" "last_date engine45_ny2023 = ''1970-01-01T00:00:00Z''"
  by (simp_all add: engine45_ny2023_def)

text \<open>
  There a call whose instant lies in the stored instant's second changes nothing.
  Otherwise, both instants being of the years 0000 to 9999, the call succeeds, stores
  the new instant, and leaves the position that the Instantaneous calculator
  computes for it (which may be the position stored before).
\<close>

lemma setDateTime_second_granularity:
  "(t div 1000 = date s div 1000 \<longrightarrow> setDateTime declared_names h s (Some t) = Inr s)
   \<and> (four_digit_year t \<and> four_digit_year (date s) \<and> t div 1000 \<noteq> date s div 1000 \<longrightarrow>
        (\<exists>s'. setDateTime declared_names h s (Some t) = Inr s' \<and> date s' = t
              \<and> getSunPosition s' = getSunPosition (updateDynamic h (s\<lparr> date := t \<rparr>))))"
  using setDateTime_same_second [of t s h] setDateTime_other_second [of t s h]
  by auto

text \<open>On \<open>engine45\<close>, 999 ms later is the same second, one second later is not.\<close>

lemma setDateTime_second_granularity_engine45:
  "(1710928800999::int) div 1000 = date engine45 div 1000
   \<and> setDateTime declared_names utc_host engine45 (Some 1710928800999) = Inr engine45
   \<and> four_digit_year 1710928801000 \<and> four_digit_year (date engine45)
   \<and> (1710928801000::int) div 1000 \<noteq> date engine45 div 1000
   \<and> (\<exists>s'. setDateTime declared_names utc_host engine45 (Some 1710928801000) = Inr s'
          \<and> date s' = 1710928801000
          \<and> getSunPosition s'
              = getSunPosition (updateDynamic utc_host (engine45\<lparr> date := 1710928801000 \<rparr>)))"
proof -
  have a: "(1710928800999::int) div 1000 = date engine45 div 1000"
    and b: "(1710928801000::int) div 1000 \<noteq> date engine45 div 1000"
    and f: "four_digit_year 1710928801000" "four_digit_year (date engine45)"
    by (simp_all add: engine45_fields four_digit_year_def)
  from setDateTime_second_granularity [of 1710928800999 engine45 utc_host]
    setDateTime_second_granularity [of 1710928801000 engine45 utc_host] a b f
  show ?thesis by simp
qed

text \<open>A second that changes need not change the position: from 2023-01-01T00:00:00Z
  to 2024-01-01T00:00:00Z on the UTC host the stored position stays (both instants
  are at year fraction 0 and local time 00:00:00).\<close>

lemma second_crossed_position_unchanged:
  "(1704067200000::int) div 1000 \<noteq> date engine45_ny2023 div 1000
   \<and> (case setDateTime declared_names utc_host engine45_ny2023 (Some 1704067200000) of
         Inl e \<Rightarrow> False
       | Inr s' \<Rightarrow> date s' = 1704067200000 \<and> getSunPosition s' = getSunPosition engine45_ny2023)"
proof -
  let ?e = engine45_ny2023
  let ?i = "updateStatic utc_host (initial_engine utc_host \<lparr> vec_x = 45, vec_y = 0, vec_z = Some 0 \<rparr>
              1672531200000 (Some 60))"
  have e: "?e = updateDynamic utc_host ?i"
    by (simp add: engine45_ny2023_def construct_engine_def)
  have d: "(1704067200000::int) div 1000 \<noteq> date ?e div 1000"
    by (simp add: engine45_ny2023_fields)
  have f: "four_digit_year 1704067200000" "four_digit_year (date ?e)"
    by (simp_all add: four_digit_year_def engine45_ny2023_fields)
  have "getSunPosition (updateDynamic utc_host (?e\<lparr> date := 1704067200000 \<rparr>))
      = getSunPosition (updateDynamic utc_host ?i)"
    by (rule updateDynamic_position_cong)
       (simp_all add: new_year_fields e initial_engine_def)
  then have p: "getSunPosition (updateDynamic utc_host (?e\<lparr> date := 1704067200000 \<rparr>))
      = getSunPosition ?e"
    by (simp only: e [symmetric])
  show ?thesis
    using d p by (simp add: setDateTime_other_second [OF f d])
qed

lemma stamp_before_next_midnight:
  assumes "stamp h s H = Some t" and "longitude s = 0" and "\<And>g a. H g = Some a \<Longrightarrow> 0 \<le> a"
  shows "t < local_midnight h (date s) + 44520000"
proof -
  obtain g a where g: "static_fract_year h (date s) = Some g" and a: "H g = Some a"
    and t: "t = local_midnight h (date s) + 60000 * \<lfloor>event_minutes s g a\<rfloor>
             + 1000 * \<lfloor>(event_minutes s g a - real_of_int \<lfloor>event_minutes s g a\<rfloor>) * 60\<rfloor>"
    using assms(1) by (auto simp add: stamp_def split: bind_splits)
  let ?m = "event_minutes s g a"
  have "?m \<le> 741"
    using assms(3) [OF a] eqtime_bound [of g] assms(2)
    unfolding event_minutes_def abs_le_iff by (simp; linarith)
  then have m: "\<lfloor>?m\<rfloor> \<le> 741" by (simp add: floor_le_iff)
  have "?m - real_of_int \<lfloor>?m\<rfloor> < 1" by linarith
  then have "(?m - real_of_int \<lfloor>?m\<rfloor>) * 60 < 60" by simp
  then have s: "\<lfloor>(?m - real_of_int \<lfloor>?m\<rfloor>) * 60\<rfloor> < 60" by (simp add: floor_less_iff)
  show ?thesis unfolding t using m s by linarith
qed

lemma march20_calendar:
  "getFullYear utc_host 1710928801000 = 2024"
  "getMonth utc_host 1710928801000 = 2"
  "getDate utc_host 1710928801000 = 20"
  by (simp_all add: getFullYear_def getMonth_def getDate_def local_time_def utc_host_def day_def
      year_from_day_def day_from_year_def month_of_day_def date_of_day_def day_within_year_def
      month_from_day_def month_start_def in_leap_year_def Let_def)

lemma march20_new_Date:
  "new_Date utc_host 2024 0 1 = Some 1704067200000"
  "new_Date utc_host 2025 0 1 = Some 1735689600000"
  "new_Date utc_host 2024 2 21 = Some 1710979200000"
  "new_Date utc_host 2024 2 20 = Some 1710892800000"
  by (simp_all add: new_Date_def utc_time_def make_day_def time_clip_def utc_host_def
      day_from_year_def month_start_def in_leap_year_def Let_def)

lemma march20_fract_year: "static_fract_year utc_host 1710928801000 = Some (80 * pi / 183)"
  by (simp add: static_fract_year_def march20_calendar march20_new_Date js_div_def)

lemma march20_modern: "modern utc_host 1710928801000"
  by (simp add: modern_def four_digit_year_def march20_calendar) (simp add: utc_host_def)

lemma march20_midnight: "local_midnight utc_host 1710928801000 = 1710892800000"
  by (simp add: local_midnight_def local_time_def utc_time_def day_def utc_host_def)

lemma stored_events_before:
  assumes "constant_zone h z" and "modern h (date s)" and "longitude s = 0"
  shows "case solar_noon (updateStatic h s) of None \<Rightarrow> True
         | Some t \<Rightarrow> t < local_midnight h (date s) + 44520000"
    and "case sunrise (updateStatic h s) of None \<Rightarrow> True
         | Some t \<Rightarrow> t < local_midnight h (date s) + 44520000"
proof -
  have l: "\<bar>longitude s\<bar> \<le> 4" using assms(3) by simp
  note ev = updateStatic_stamps [OF assms(1,2) l]
  have noon: "solar_noon (updateStatic h s) = stamp h s (\<lambda>g. Some 0)"
    and rise: "sunrise (updateStatic h s) = stamp h s (\<lambda>g. computeHourAngle s g (- 0.0145381))"
    using ev by simp_all
  show "case solar_noon (updateStatic h s) of None \<Rightarrow> True
         | Some t \<Rightarrow> t < local_midnight h (date s) + 44520000"
    unfolding noon
    using stamp_before_next_midnight [of h s "\<lambda>g. Some 0", OF _ assms(3)]
    by (auto split: option.splits)
  show "case sunrise (updateStatic h s) of None \<Rightarrow> True
         | Some t \<Rightarrow> t < local_midnight h (date s) + 44520000"
    unfolding rise
    using stamp_before_next_midnight [of h s "\<lambda>g. computeHourAngle s g (- 0.0145381)",
        OF _ assms(3)] computeHourAngle_range(1)
    by (auto split: option.splits)
qed

lemma stamp_lower_bound:
  assumes "stamp h s H = Some t" and "\<bar>longitude s\<bar> \<le> 4"
    and "\<And>g a. H g = Some a \<Longrightarrow> \<bar>a\<bar> \<le> 230"
  shows "local_midnight h (date s) - 180060000 \<le> t"
proof -
  obtain g a where a: "H g = Some a"
    and t: "t = local_midnight h (date s) + 60000 * \<lfloor>event_minutes s g a\<rfloor>
             + 1000 * \<lfloor>(event_minutes s g a - real_of_int \<lfloor>event_minutes s g a\<rfloor>) * 60\<rfloor>"
    using assms(1) by (auto simp add: stamp_def split: bind_splits)
  let ?m = "event_minutes s g a"
  have "\<bar>?m\<bar> \<le> 3000" using assms(2) assms(3) [OF a] by (rule event_minutes_bound)
  then have m: "- 3001 \<le> \<lfloor>?m\<rfloor>" by (simp add: abs_le_iff le_floor_iff)
  have s: "0 \<le> \<lfloor>(?m - real_of_int \<lfloor>?m\<rfloor>) * 60\<rfloor>" by simp
  show ?thesis unfolding t using m s by linarith
qed

lemma shifted_zero:
  assumes "constant_zone h z" and "\<bar>t\<bar> \<le> 8640000000000000"
  shows "shifted h s (Some t) (Some 0) = Some t"
  using assms(2) by (simp add: shifted_def constant_zone_setters(1) [OF assms(1)] time_clip_def)

text \<open>
  C1. On \<open>engine45\<close> (2024-03-20T10:00:00Z) the call for 2024-03-21T00:00:05Z
  crosses the day boundary; the class on its own throws a ReferenceError there and
  runs no calculator. In a scope that declares the two names, \<open>setDateTime\<close>
  compares the day of the instant stored before the call with the marker, not the
  day of the new instant: the call for 10:00:01 of the same day runs the Daily
  calculator (the marker was 1970-01-01); the call for 2024-03-21T00:00:05Z then
  runs the Instantaneous calculator only. The events stay those of March 20:
  \<open>getSolarNoon\<close> returns an instant before 2024-03-21T00:00:00Z, and so does
  \<open>getSunrise\<close> if it returns a valid Date.
\<close>

theorem daily_recompute_lags:
  "setDateTime {} utc_host engine45 (Some 1710979205000) = Inl ReferenceError
   \<and> (case setDateTime declared_names utc_host engine45 (Some 1710928801000) of
      Inl e \<Rightarrow> False
    | Inr e1 \<Rightarrow>
        e1 = updateStatic utc_host
               ((updateDynamic utc_host (engine45\<lparr> date := 1710928801000 \<rparr>))
                  \<lparr> last_date := ''2024-03-20T10:00:00.000Z'' \<rparr>)
        \<and> (case setDateTime declared_names utc_host e1 (Some 1710979205000) of
               Inl e \<Rightarrow> False
             | Inr e2 \<Rightarrow>
                 e2 = updateDynamic utc_host (e1\<lparr> date := 1710979205000 \<rparr>)
                 \<and> take 10 (toISOString (date e2)) = ''2024-03-21''
                 \<and> sunrise e2 = sunrise e1 \<and> sunset e2 = sunset e1
                 \<and> solar_noon e2 = solar_noon e1
                 \<and> (case getSolarNoon utc_host e2 (Some 0) of
                        None \<Rightarrow> False | Some t \<Rightarrow> t < 1710979200000)
                 \<and> (case getSunrise utc_host e2 (Some 0) of
                        None \<Rightarrow> True | Some t \<Rightarrow> t < 1710979200000)))"
proof -
  let ?t0 = "1710928800000::int" and ?t1 = "1710928801000::int" and ?t2 = "1710979205000::int"
  let ?x = "(updateDynamic utc_host (engine45\<lparr> date := ?t1 \<rparr>))
              \<lparr> last_date := ''2024-03-20T10:00:00.000Z'' \<rparr>"
  let ?e1 = "updateStatic utc_host ?x"
  let ?e2 = "updateDynamic utc_host (?e1\<lparr> date := ?t2 \<rparr>)"
  have fd: "four_digit_year ?t0" "four_digit_year ?t1" "four_digit_year ?t2"
    by (simp_all add: four_digit_year_def)
  have iso: "toISOString ?t0 = ''2024-03-20T10:00:00.000Z''"
    "take 10 (toISOString ?t2) = ''2024-03-21''"
    by code_simp+
  have thrown: "setDateTime {} utc_host engine45 (Some ?t2) = Inl ReferenceError"
    by (simp add: setDateTime_def)
  note z = utc_host_constant
  have first: "setDateTime declared_names utc_host engine45 (Some ?t1) = Inr ?e1"
    using setDateTime_other_second [of ?t1 engine45 utc_host] fd
    by (simp add: engine45_fields iso)
  have x: "date ?x = ?t1" "longitude ?x = 0" "last_date ?e1 = toISOString ?t0" "date ?e1 = ?t1"
    by (simp_all add: engine45_fields iso)
  have same_day: "take 10 (toISOString ?t1) = take 10 (toISOString ?t0)"
    using same_day_iff [OF fd(2) fd(1)] by (simp add: day_def)
  have second: "setDateTime declared_names utc_host ?e1 (Some ?t2) = Inr ?e2"
    using setDateTime_other_second [of ?t2 ?e1 utc_host] fd same_day
    by (simp add: x iso(1))
  have m: "modern utc_host (date ?x)" using march20_modern by (simp add: x)
  have l: "\<bar>longitude ?x\<bar> \<le> 4" by (simp add: x)
  note ev = updateStatic_stamps [OF z m l]
  have noon: "solar_noon ?e1 = stamp utc_host ?x (\<lambda>g. Some 0)"
    using ev by simp
  obtain t where t: "solar_noon ?e1 = Some t"
    unfolding noon by (simp add: stamp_def x march20_fract_year)
  have up: "t < 1710979200000"
    using stored_events_before(1) [OF z m x(2)] t by (simp add: x march20_midnight)
  have lo: "0 \<le> t"
    using stamp_lower_bound [of utc_host ?x "\<lambda>g. Some 0" t, OF _ l] t noon
    by (simp add: x march20_midnight)
  have g1: "getSolarNoon utc_host ?e2 (Some 0) = Some t"
    using shifted_zero [OF z, of t ?e2] lo up t by (simp add: getSolarNoon_def)
  have g2: "case getSunrise utc_host ?e2 (Some 0) of None \<Rightarrow> True | Some u \<Rightarrow> u < 1710979200000"
  proof (cases "sunrise ?e1")
    case None
    then show ?thesis by (simp add: getSunrise_def)
  next
    case (Some u)
    have rise: "sunrise ?e1 = stamp utc_host ?x (\<lambda>g. computeHourAngle ?x g (- 0.0145381))"
      using ev by simp
    have r: "\<bar>a\<bar> \<le> 230" if "computeHourAngle ?x g (- 0.0145381) = Some a" for g a
      using computeHourAngle_range [OF that] by (simp add: abs_le_iff)
    have u1: "u < 1710979200000"
      using stored_events_before(2) [OF z m x(2)] Some by (simp add: x march20_midnight)
    have st: "stamp utc_host ?x (\<lambda>g. computeHourAngle ?x g (- 0.0145381)) = Some u"
      using Some rise by simp
    have "local_midnight utc_host (date ?x) - 180060000 \<le> u"
      by (rule stamp_lower_bound [OF st l]) (rule r)
    then have u0: "0 \<le> u" by (simp add: x march20_midnight)
    have "getSunrise utc_host ?e2 (Some 0) = Some u"
      using shifted_zero [OF z, of u ?e2] u0 u1 Some by (simp add: getSunrise_def)
    then show ?thesis using u1 by simp
  qed
  show ?thesis
    unfolding thrown first second sum.case
    using g1 g2 up iso(2) by simp
qed

section \<open>The refraction term\<close>

lemma zenith_for_root:
  assumes "3 \<le> c" and "c \<le> 5"
  shows "0 < zenith_for c" and "zenith_for c < 5"
    and "zenith_for c + 10.3 / (zenith_for c + 5.11) = c"
proof -
  define D where "D = (c - 5.11)\<^sup>2 + 4 * (5.11 * c - 10.3)"
  define r where "r = sqrt D"
  have k: "0 < 5.11 * c - 10.3" using assms(1) by simp
  have Dpos: "(c - 5.11)\<^sup>2 < D" using k by (simp add: D_def)
  have D0: "0 \<le> D" using Dpos zero_le_power2 [of "c - 5.11"] by linarith
  have r2: "r\<^sup>2 = D" using D0 by (simp add: r_def)
  have r0: "0 \<le> r" by (simp add: r_def D0)
  have "(c - 5.11)\<^sup>2 < r\<^sup>2" "(5.11 - c)\<^sup>2 < r\<^sup>2"
    using Dpos unfolding r2 by (simp_all add: power2_commute)
  then have rb: "c - 5.11 < r" "5.11 - c < r"
    using r0 by (auto intro: power2_less_imp_less)
  have z: "zenith_for c = ((c - 5.11) + r) / 2" by (simp add: zenith_for_def r_def D_def)
  show pos: "0 < zenith_for c" unfolding z using rb(2) by simp
  have "D < 81"
  proof -
    have "(c - 5.11)\<^sup>2 \<le> (2.11)\<^sup>2"
      using assms by (intro power2_le_iff_abs_le [THEN iffD2]) (simp_all add: abs_le_iff)
    moreover have "4 * (5.11 * c - 10.3) \<le> 61" using assms(2) by simp
    ultimately show ?thesis unfolding D_def by (simp add: power2_eq_square)
  qed
  then have "r\<^sup>2 < 9\<^sup>2" unfolding r2 by simp
  then have "r < 9" by (rule power2_less_imp_less) simp
  then show "zenith_for c < 5" unfolding z using assms(2) by simp
  have q: "(zenith_for c)\<^sup>2 - (c - 5.11) * zenith_for c - (5.11 * c - 10.3) = 0"
  proof -
    have "4 * ((zenith_for c)\<^sup>2 - (c - 5.11) * zenith_for c - (5.11 * c - 10.3))
        = r\<^sup>2 - (c - 5.11)\<^sup>2 - 4 * (5.11 * c - 10.3)"
      unfolding z by (simp add: power2_eq_square field_simps)
    also have "\<dots> = 0" unfolding r2 D_def by simp
    finally show ?thesis by simp
  qed
  have nz: "zenith_for c + 5.11 \<noteq> 0" using pos by simp
  have "zenith_for c * (zenith_for c + 5.11) + 10.3 = c * (zenith_for c + 5.11)"
    using q by (simp add: power2_eq_square algebra_simps)
  then have "(zenith_for c * (zenith_for c + 5.11) + 10.3) / (zenith_for c + 5.11) = c"
    using nz by simp
  then show "zenith_for c + 10.3 / (zenith_for c + 5.11) = c"
    using nz by (simp add: add_divide_distrib)
qed

lemma refraction_at:
  assumes "3 \<le> c" and "c \<le> 5"
  shows "refraction (zenith_for c) = js_tan c \<bind> js_div (- 0.0167)"
proof -
  have nz: "zenith_for c + 5.11 \<noteq> 0" using zenith_for_root(1) [OF assms] by simp
  have q: "js_div 10.3 (zenith_for c + 5.11) = Some (10.3 / (zenith_for c + 5.11))"
    using nz by (simp only: js_div_def if_False)
  have b: "Some x \<bind> f = f x" for x :: real and f :: "real \<Rightarrow> real option" by simp
  show ?thesis
    by (simp only: refraction_def q b zenith_for_root(3) [OF assms])
qed

lemma refraction_singular: "refraction (zenith_for pi) = None"
  using refraction_at [of pi] pi_ge_three pi_less_4
  by (simp add: js_tan_def js_div_def)

lemma tan_small:
  fixes d :: real
  assumes "0 < d" and "d \<le> 1 / 2"
  shows "0 < cos d" and "0 < sin d" and "sin d / cos d \<le> d * 8 / 7"
proof -
  have "d\<^sup>2 \<le> (1 / 2)\<^sup>2" using assms by (intro power_mono) simp_all
  then have c: "7 / 8 \<le> cos d" using cos_lower_bound [of d] by (simp add: power2_eq_square)
  then show c0: "0 < cos d" by simp
  have "d < pi" using assms(2) pi_ge_three by simp
  then show "0 < sin d" using assms(1) by (rule sin_gt_zero [rotated]) 
  have "sin d \<le> d" using assms(1) by (intro sin_x_le_x) simp
  then have "sin d * 7 \<le> d * 8 * cos d"
    using c assms(1) mult_mono [of "sin d" d 7 "8 * cos d"] by simp
  then show "sin d / cos d \<le> d * 8 / 7"
    using c0 by (simp add: field_simps)
qed

lemma refraction_near:
  fixes d :: real
  assumes "0 < d" and "d \<le> 1 / 2"
  shows "refraction (zenith_for (pi + d)) = Some (- 0.0167 / (sin d / cos d))"
proof -
  have r: "3 \<le> pi + d" "pi + d \<le> 5" using assms pi_ge_three pi_less_4 by simp_all
  note t = tan_small [OF assms]
  have "js_tan (pi + d) = Some (sin d / cos d)"
    using t(1) by (simp add: js_tan_def)
  then show ?thesis
    using t(1,2) by (simp add: refraction_at [OF r] js_div_def)
qed

lemma declination_zero: "declination 0 = - 0.402449" and eqtime_zero: "eqtime 0 = - 2.90416896"
  by (simp_all add: declination_def eqtime_def)

lemma elevation_at_noon:
  assumes "date s = 1704067200000" and "longitude s = 2.90416896 / (4 * 57.2957795)"
    and "timezone s = - 720" and "altitude s = 0"
    and "latitude_trig s = trig_of (- 0.402449 + z / 57.2957795)"
    and "0 \<le> z" and "z \<le> 5"
  shows "sun_elevation (updateDynamic utc_host s) = refraction z \<bind> (\<lambda>r. Some (90 - z + r))"
proof -
  let ?L = "- 0.402449 + z / 57.2957795"
  have h: "hour_angle utc_host s 0 = 0"
    by (simp add: hour_angle_def assms(1-3) new_year_fields eqtime_zero)
  have zr: "0 \<le> z / 57.2957795" "z / 57.2957795 \<le> pi"
    using assms(6,7) pi_ge_three by simp_all
  have "sin ?L * sin (- 0.402449) + cos ?L * cos (- 0.402449) = cos (?L - (- 0.402449))"
    by (simp only: cos_diff add.commute)
  also have "?L - (- 0.402449) = z / 57.2957795" by simp
  finally have a: "sin ?L * sin (- 0.402449) + cos ?L * cos (- 0.402449) = cos (z / 57.2957795)" .
  have ac: "js_acos (cos (z / 57.2957795)) = Some (z / 57.2957795)"
    using zr by (simp add: js_acos_def arccos_cos)
  have e: "js_acos (vec_x (latitude_trig s) * sin (declination 0)
            + vec_y (latitude_trig s) * cos (declination 0) * cos (hour_angle utc_host s 0))
          = Some (z / 57.2957795)"
    unfolding assms(5) h declination_zero trig_of_def using a ac by simp
  show ?thesis
    unfolding updateDynamic_def Let_def
    by (simp add: assms(1,4) new_year_fields e)
qed

lemma near_singular_elevation:
  assumes "3 \<le> c" and "c \<le> 5"
  shows "sun_elevation (near_singular_engine c)
         = refraction (zenith_for c) \<bind> (\<lambda>r. Some (90 - zenith_for c + r))"
proof -
  let ?z = "zenith_for c"
  let ?L = "- 0.402449 + ?z / 57.2957795"
  let ?s = "updateStatic utc_host (initial_engine utc_host
       \<lparr> vec_x = (- 0.402449 + zenith_for c / 57.2957795) / 0.01745329,
         vec_y = 2.90416896 / (4 * 57.2957795 * 0.01745329),
         vec_z = Some 0 \<rparr>
       1704067200000 (Some (- 720)))"
  have lat: "(- 0.402449 + ?z / 57.2957795) / 0.01745329 * 0.01745329 = ?L"
    by (simp add: field_simps)
  have i: "latitude_trig (initial_engine h v d tz) = trig_of (vec_x v * 0.01745329)" for h v d tz
    by (simp add: initial_engine_def)
  have f1: "latitude_trig ?s = trig_of ?L"
    by (simp only: updateStatic_fields i vec.select_convs lat)
  have f: "date ?s = 1704067200000" "longitude ?s = 2.90416896 / (4 * 57.2957795)"
    "timezone ?s = - 720" "altitude ?s = 0"
    by (simp_all add: initial_engine_def)
  have z: "0 \<le> ?z" "?z \<le> 5" using zenith_for_root(1,2) [OF assms] by simp_all
  show ?thesis
    unfolding near_singular_engine_def construct_engine_def
    by (rule elevation_at_noon [OF f f1 z])
qed

lemma refraction_formula:
  assumes "0 \<le> e"
  shows "refraction e = js_tan (e + 10.3 / (e + 5.11)) \<bind> js_div (- 0.0167)"
proof -
  have nz: "e + 5.11 \<noteq> 0" using assms by simp
  have q: "js_div 10.3 (e + 5.11) = Some (10.3 / (e + 5.11))"
    using nz by (simp only: js_div_def if_False)
  have b: "Some x \<bind> f = f x" for x :: real and f :: "real \<Rightarrow> real option" by simp
  show ?thesis by (simp only: refraction_def q b)
qed

lemma elevation_unbounded:
  "\<exists>c v. sun_elevation (near_singular_engine c) = Some v \<and> B < \<bar>v\<bar>"
proof -
  define M where "M = max B 0 + 91"
  define d where "d = 0.01 / M"
  have M: "91 \<le> M" "B + 91 \<le> M" by (simp_all add: M_def)
  have d0: "0 < d" using M(1) by (simp add: d_def)
  have "d \<le> 0.01 / 91" unfolding d_def using M(1) by (intro divide_left_mono) simp_all
  then have d1: "d \<le> 1 / 2" by simp
  define t where "t = sin d / cos d"
  note ts = tan_small [OF d0 d1]
  have t0: "0 < t" using ts(1,2) by (simp add: t_def)
  have t1: "t \<le> d * 8 / 7" using ts(3) by (simp add: t_def)
  have r: "3 \<le> pi + d" "pi + d \<le> 5" using d0 d1 pi_ge_three pi_less_4 by simp_all
  let ?z = "zenith_for (pi + d)"
  have e: "sun_elevation (near_singular_engine (pi + d)) = Some (90 - ?z + - 0.0167 / t)"
    by (simp add: near_singular_elevation [OF r] refraction_near [OF d0 d1] t_def)
  have "t * M \<le> d * 8 / 7 * M" using t1 M(1) by (intro mult_right_mono) simp_all
  also have "d * 8 / 7 * M = 0.08 / 7" using M(1) by (simp add: d_def)
  finally have "t * M \<le> 0.0167" by simp
  then have big: "M \<le> 0.0167 / t" using t0 by (simp add: pos_le_divide_eq mult.commute)
  have z: "0 < ?z" using zenith_for_root(1) [OF r] .
  have "90 - ?z + - 0.0167 / t < - B" using big z M(2) by simp
  moreover have "90 - ?z + - 0.0167 / t < 0" using big z M(1) by simp
  ultimately have "B < \<bar>90 - ?z + - 0.0167 / t\<bar>" by simp
  then show ?thesis using e by blast
qed

text \<open>
  The refraction term is the bare quotient
  \<open>-0.0167 / tan (z + 10.3 / (z + 5.11))\<close> of the zenith angle \<open>z\<close>, with no clamp
  or special case; \<open>z + 5.11\<close> is not 0 for a zenith angle, and the term is
  unbounded where the tangent vanishes: for every bound there is an engine whose
  \<open>getSunPosition\<close> elevation exceeds it in absolute value.
\<close>

lemma refraction_unguarded:
  "(\<forall>e. 0 \<le> e \<longrightarrow> refraction e = js_tan (e + 10.3 / (e + 5.11)) \<bind> js_div (- 0.0167))
   \<and> (\<forall>B. \<exists>c v. snd (getSunPosition (near_singular_engine c)) = Some v \<and> B < \<bar>v\<bar>)"
  using refraction_formula elevation_unbounded by (simp add: getSunPosition_def)

text \<open>At the zenith angle 45 the term is that quotient, and some engine has an
  elevation beyond a million degrees.\<close>

lemma refraction_unguarded_million:
  "(0::real) \<le> 45
   \<and> refraction 45 = js_tan (45 + 10.3 / (45 + 5.11)) \<bind> js_div (- 0.0167)
   \<and> (\<exists>c v. snd (getSunPosition (near_singular_engine c)) = Some v \<and> 1000000 < \<bar>v\<bar>)"
  using refraction_unguarded by simp

text \<open>At the zenith angle \<open>zenith_for pi\<close> (about 1.6085) the tangent is 0, and the
  elevation of the engine built there is not a finite number.\<close>

lemma refraction_singular_state:
  "sun_elevation (near_singular_engine pi) = None
   \<and> getSunPosition (near_singular_engine pi)
       = (sun_azimuth (near_singular_engine pi), None)"
proof -
  have r: "3 \<le> pi" "pi \<le> 5" using pi_ge_three pi_less_4 by simp_all
  have "sun_elevation (near_singular_engine pi) = None"
    by (simp add: near_singular_elevation [OF r] refraction_singular)
  then show ?thesis by (simp add: getSunPosition_def)
qed

text \<open>Bounds of \<open>sin\<close> and of \<open>pi\<close>, to place a decimal argument of the tangent.\<close>

lemma sin_taylor_bounds:
  fixes x :: real
  assumes "0 < x" and "x \<le> 1"
  shows "sin x \<le> x - x ^ 3 / 6 + x ^ 5 / 120"
    and "x - x ^ 3 / 6 + x ^ 5 / 120 - x ^ 7 / 5040 \<le> sin x"
proof -
  obtain t where t: "0 < t" "t < x"
    and e: "sin x = (\<Sum>m<7. sin_coeff m * x ^ m) + (sin (t + 1 / 2 * real 7 * pi) / fact 7) * x ^ 7"
    using Maclaurin_sin_expansion3 [of 7 x] assms(1) by auto
  have s: "(\<Sum>m<7. sin_coeff m * x ^ m) = x - x ^ 3 / 6 + x ^ 5 / 120"
    by (simp add: eval_nat_numeral cos_coeff_Suc sin_coeff_Suc)
  have "t + 1 / 2 * real 7 * pi = (t - pi / 2) + 2 * pi * 2" by simp
  then have "sin (t + 1 / 2 * real 7 * pi) = sin (t - pi / 2)"
    using sin_periodic [of "t - pi / 2 + 2 * pi"] sin_periodic [of "t - pi / 2"]
    by (simp add: algebra_simps)
  then have c: "sin (t + 1 / 2 * real 7 * pi) = - cos t"
    by (simp add: sin_diff)
  have f: "fact 7 = (5040::real)" by (simp add: eval_nat_numeral)
  have "t < pi / 2" using t(2) assms(2) pi_ge_three by simp
  then have c0: "0 \<le> cos t" using t(1) by (intro cos_ge_zero) simp_all
  have c1: "cos t \<le> 1" by simp
  have x7: "0 \<le> x ^ 7" using assms(1) by simp
  have "0 \<le> cos t * x ^ 7" using c0 x7 by simp
  then show "sin x \<le> x - x ^ 3 / 6 + x ^ 5 / 120"
    unfolding e s c f by simp
  have "cos t * x ^ 7 \<le> 1 * x ^ 7" using c1 x7 by (rule mult_right_mono)
  then show "x - x ^ 3 / 6 + x ^ 5 / 120 - x ^ 7 / 5040 \<le> sin x"
    unfolding e s c f by simp
qed

lemma pi_bounds: "3.141576 < pi" "pi < 3.141594"
proof -
  have a: "sin 0.523596 < sin (pi / 6)"
  proof -
    have "sin (0.523596::real) \<le> 0.523596 - 0.523596 ^ 3 / 6 + 0.523596 ^ 5 / 120"
      by (rule sin_taylor_bounds(1)) simp_all
    also have "\<dots> < 1 / 2" by (simp add: power_divide)
    finally show ?thesis by (simp add: sin_30)
  qed
  have b: "sin (pi / 6) < sin 0.523599"
  proof -
    have "1 / 2 < (0.523599::real) - 0.523599 ^ 3 / 6 + 0.523599 ^ 5 / 120 - 0.523599 ^ 7 / 5040"
      by (simp add: power_divide)
    also have "\<dots> \<le> sin 0.523599"
      by (rule sin_taylor_bounds(2)) simp_all
    finally show ?thesis by (simp add: sin_30)
  qed
  have r: "- (pi / 2) \<le> (0.523596::real)" "(0.523596::real) \<le> pi / 2"
    "- (pi / 2) \<le> (0.523599::real)" "(0.523599::real) \<le> pi / 2"
    "- (pi / 2) \<le> pi / 6" "pi / 6 \<le> pi / 2"
    using pi_ge_three by simp_all
  have "0.523596 < pi / 6"
    using a sin_mono_less_eq [OF r(1,2,5,6)] by simp
  then show "3.141576 < pi" by simp
  have "pi / 6 < 0.523599"
    using b sin_mono_less_eq [OF r(5,6,3,4)] by simp
  then show "pi < 3.141594" by simp
qed

lemma refraction_past_pi:
  fixes z d :: real
  assumes "0 \<le> z" and "z + 10.3 / (z + 5.11) = pi + d" and "0 < d" and "d \<le> 1 / 2"
  shows "refraction z = Some (- 0.0167 / (sin d / cos d))"
proof -
  note t = tan_small [OF assms(3,4)]
  have j: "js_tan (pi + d) = Some (sin d / cos d)"
    using t(1) by (simp add: js_tan_def)
  have "refraction z = js_tan (z + 10.3 / (z + 5.11)) \<bind> js_div (- 0.0167)"
    by (rule refraction_formula [OF assms(1)])
  also have "\<dots> = js_tan (pi + d) \<bind> js_div (- 0.0167)"
    by (simp only: assms(2))
  also have "\<dots> = Some (- 0.0167 / (sin d / cos d))"
    using t(1,2) by (simp add: j js_div_def)
  finally show ?thesis .
qed

text \<open>
  C5. The Instantaneous calculator applies the refraction term with no clamp and no
  special case. On the engine at 21.450113 S the zenith angle \<open>z\<close> is 1.60851927
  degrees and the argument \<open>z + 10.3 / (z + 5.11)\<close> of the tangent is 3.14159517,
  just past \<open>pi\<close>: \<open>getSunPosition\<close> returns an elevation below -600 degrees,
  where the sun stands 88.39 degrees above the horizon.
\<close>

theorem refraction_out_of_range:
  "\<exists>v. snd (getSunPosition engine21s_ny2024) = Some v \<and> v < - 600"
proof -
  define z :: real where "z = (- 21.450113 * 0.01745329 + 0.402449) * 57.2957795"
  define d where "d = z + 10.3 / (z + 5.11) - pi"
  let ?s = "updateStatic utc_host (initial_engine utc_host
       \<lparr> vec_x = - 21.450113, vec_y = 2.90416896 / (4 * 57.2957795 * 0.01745329),
         vec_z = Some 0 \<rparr>
       1704067200000 (Some (- 720)))"
  have zr: "0 \<le> z" "z \<le> 5" by (simp_all add: z_def)
  have c: "3.141594 \<le> z + 10.3 / (z + 5.11)" "z + 10.3 / (z + 5.11) \<le> 3.141596"
    by (simp_all add: z_def)
  have d: "0 < d" "d \<le> 0.00002" "z + 10.3 / (z + 5.11) = pi + d"
    using c pi_bounds by (simp_all add: d_def)
  then have d2: "d \<le> 1 / 2" by simp
  have lat: "- 21.450113 * 0.01745329 = - 0.402449 + z / 57.2957795"
    by (simp add: z_def)
  have f1: "latitude_trig ?s = trig_of (- 0.402449 + z / 57.2957795)"
    unfolding lat [symmetric] by (simp add: initial_engine_def)
  have f: "date ?s = 1704067200000" "longitude ?s = 2.90416896 / (4 * 57.2957795)"
    "timezone ?s = - 720" "altitude ?s = 0"
    by (simp_all add: initial_engine_def)
  define t where "t = sin d / cos d"
  note ts = tan_small [OF d(1) d2]
  have t0: "0 < t" using ts(1,2) by (simp add: t_def)
  have "t \<le> d * 8 / 7" using ts(3) by (simp add: t_def)
  then have t1: "t \<le> 0.00016 / 7" using d(2) by simp
  have "sun_elevation engine21s_ny2024 = refraction z \<bind> (\<lambda>r. Some (90 - z + r))"
    unfolding engine21s_ny2024_def construct_engine_def
    by (rule elevation_at_noon [OF f f1 zr])
  then have e: "sun_elevation engine21s_ny2024 = Some (90 - z + - 0.0167 / t)"
    by (simp add: refraction_past_pi [OF zr(1) d(3) d(1) d2] t_def)
  have "t * 730 \<le> 0.0167" using t1 by simp
  then have "730 \<le> 0.0167 / t" using t0 by (simp add: pos_le_divide_eq mult.commute)
  then have "90 - z + - 0.0167 / t < - 600" using zr(1) by simp
  then show ?thesis using e by (simp add: getSunPosition_def)
qed

section \<open>setLocation and the caller's coordinates object\<close>

text \<open>
  C9. Every call of \<open>setLocation\<close> overwrites the \<open>x\<close> and \<open>y\<close> fields of the
  coordinates object it is given, multiplying each by 0.01745329, whatever the state,
  the coordinates and the timezone are (so also when no threshold is crossed); a second
  call with the same object scales the fields once more.
\<close>

theorem setLocation_overwrites_coordinates:
  "snd (setLocation h s c tz) =
     c\<lparr> vec_x := vec_x c * 0.01745329, vec_y := vec_y c * 0.01745329 \<rparr>
   \<and> snd (setLocation h' (fst (setLocation h s c tz)) (snd (setLocation h s c tz)) tz') =
     c\<lparr> vec_x := vec_x c * 0.01745329 * 0.01745329,
        vec_y := vec_y c * 0.01745329 * 0.01745329 \<rparr>"
  by (simp add: setLocation_def Let_def)

text \<open>At \<open>engine45\<close>, a call with the engine's own location (45 degrees is the stored
  0.78539805 rad) crosses no threshold: the engine is unchanged and the caller's 45
  has become 0.78539805; passing the object again leaves 0.0137077799320845.\<close>

theorem setLocation_overwrites_coordinates_witness:
  "fst (setLocation utc_host engine45 \<lparr> vec_x = 45, vec_y = 0, vec_z = Some 0 \<rparr> None) = engine45
   \<and> snd (setLocation utc_host engine45 \<lparr> vec_x = 45, vec_y = 0, vec_z = Some 0 \<rparr> None) =
       \<lparr> vec_x = 0.78539805, vec_y = 0, vec_z = Some 0 \<rparr>
   \<and> snd (setLocation utc_host
         (fst (setLocation utc_host engine45 \<lparr> vec_x = 45, vec_y = 0, vec_z = Some 0 \<rparr> None))
         (snd (setLocation utc_host engine45 \<lparr> vec_x = 45, vec_y = 0, vec_z = Some 0 \<rparr> None))
         None) =
       \<lparr> vec_x = 0.0137077799320845, vec_y = 0, vec_z = Some 0 \<rparr>"
proof -
  let ?c = "\<lparr> vec_x = 45, vec_y = 0, vec_z = Some 0 \<rparr>"
  note scaled = setLocation_overwrites_coordinates [of utc_host engine45 ?c None utc_host None]
  have once: "snd (setLocation utc_host engine45 ?c None) =
      ?c\<lparr> vec_x := vec_x ?c * 0.01745329, vec_y := vec_y ?c * 0.01745329 \<rparr>"
    by (rule conjunct1 [OF scaled])
  have twice: "snd (setLocation utc_host (fst (setLocation utc_host engine45 ?c None))
        (snd (setLocation utc_host engine45 ?c None)) None) =
      ?c\<lparr> vec_x := vec_x ?c * 0.01745329 * 0.01745329,
          vec_y := vec_y ?c * 0.01745329 * 0.01745329 \<rparr>"
    by (rule conjunct2 [OF scaled])
  show ?thesis
  proof (intro conjI)
    show "fst (setLocation utc_host engine45 ?c None) = engine45"
      by (simp add: setLocation_def Let_def engine45_def)
    show "snd (setLocation utc_host engine45 ?c None) =
        \<lparr> vec_x = 0.78539805, vec_y = 0, vec_z = Some 0 \<rparr>"
      unfolding once by simp
    show "snd (setLocation utc_host (fst (setLocation utc_host engine45 ?c None))
        (snd (setLocation utc_host engine45 ?c None)) None) =
        \<lparr> vec_x = 0.0137077799320845, vec_y = 0, vec_z = Some 0 \<rparr>"
      unfolding twice by simp
  qed
qed

section \<open>The timezone argument\<close>

text \<open>
  C6. The constructor tests the argument with \<open>!timezone\<close>, so a supplied offset of 0
  is taken for an omitted one: on a host one hour east of UTC the engine built with
  the timezone 0 stores 60. (The accessors test \<open>typeof timezone === 'number'\<close> and
  keep a 0.)
\<close>

theorem constructor_replaces_zero_timezone:
  "getTimezone (construct_engine cet_host \<lparr> vec_x = 45, vec_y = 0, vec_z = Some 0 \<rparr>
                  1710928800000 (Some 0)) = 60"
  by (simp add: getTimezone_def cet_host_def)

lemma constructor_timezone:
  "timezone (construct_engine h c d tz) =
     (case tz of None \<Rightarrow> - host_tzo h d | Some v \<Rightarrow> if v = 0 then - host_tzo h d else \<lfloor>v\<rfloor>)"
  by simp

lemma accessor_keeps_zero_timezone:
  "shifted h s (Some t) (Some 0) = setMinutes h t (getMinutes h t)"
  by (simp add: shifted_def)

section \<open>setLocation and its thresholds\<close>

text \<open>
  C2. \<open>setLocation\<close> tests its timezone argument with \<open>timezone ? ... : ...\<close>, so a
  supplied 0 is taken for an omitted timezone: on \<open>engine45\<close>, whose timezone is 60, the
  call with the engine's own location and the timezone 0 changes nothing in the
  engine, and the timezone stays 60.
\<close>

theorem setLocation_ignores_zero_timezone:
  "setLocation utc_host engine45 \<lparr> vec_x = 45, vec_y = 0, vec_z = Some 0 \<rparr> (Some 0) =
     (engine45, \<lparr> vec_x = 0.78539805, vec_y = 0, vec_z = Some 0 \<rparr>)
   \<and> getTimezone engine45 = 60"
  by (simp add: setLocation_def Let_def engine45_fields getTimezone_def)

text \<open>With a \<open>z\<close> component and a timezone that is omitted or not 0, the engine
  recomputes exactly when a threshold is crossed, and is unchanged otherwise.\<close>

lemma setLocation_recomputes_iff:
  assumes "vec_z c = Some a" and "tz \<noteq> Some 0"
  shows "fst (setLocation h s c tz) =
     (if \<bar>vec_x c * 0.01745329 - latitude s\<bar> > 0.00000001
         \<or> \<bar>vec_y c * 0.01745329 - longitude s\<bar> > 0.00000001
         \<or> \<bar>a - altitude s\<bar> > 0.01
         \<or> (\<exists>v. tz = Some v \<and> \<lfloor>v\<rfloor> \<noteq> timezone s)
      then updateDynamic h (updateStatic h
             (s\<lparr> latitude := vec_x c * 0.01745329, longitude := vec_y c * 0.01745329,
                 altitude := a,
                 timezone := (case tz of None \<Rightarrow> timezone s | Some v \<Rightarrow> \<lfloor>v\<rfloor>),
                 latitude_trig := trig_of (vec_x c * 0.01745329) \<rparr>))
      else s)"
  using assms by (cases tz) (auto simp add: setLocation_def Let_def)

lemma setLocation_latitude_below_threshold:
  assumes "vec_x c * 0.01745329 - latitude s = 0.000000001"
    and "vec_y c * 0.01745329 = longitude s" and "vec_z c = Some (altitude s)"
  shows "fst (setLocation h s c None) = s"
proof -
  have "\<not> \<bar>vec_x c * 0.01745329 - latitude s\<bar> > 0.00000001"
    unfolding assms(1) by simp
  then show ?thesis
    using assms(2,3) setLocation_recomputes_iff [of c "altitude s" None h s] by simp
qed

lemma setLocation_latitude_above_threshold:
  assumes "vec_x c * 0.01745329 - latitude s = 0.0000001" and "vec_z c = Some a"
  shows "fst (setLocation h s c None) =
     updateDynamic h (updateStatic h
       (s\<lparr> latitude := vec_x c * 0.01745329, longitude := vec_y c * 0.01745329,
           altitude := a, timezone := timezone s,
           latitude_trig := trig_of (vec_x c * 0.01745329) \<rparr>))"
proof -
  have "\<bar>vec_x c * 0.01745329 - latitude s\<bar> > 0.00000001"
    unfolding assms(1) by simp
  then show ?thesis
    using assms(2) setLocation_recomputes_iff [of c a None h s] by simp
qed

text \<open>
  C10. A coordinates object with no \<open>z\<close> field: the altitude comparison is false, so
  the engine recomputes exactly when the latitude, the longitude or the timezone
  crosses its threshold, whatever the stored altitude is; when it recomputes, the
  stored altitude becomes 0, and otherwise the engine is unchanged.
\<close>

theorem setLocation_without_z:
  assumes "vec_z c = None"
  shows "fst (setLocation h s c tz) =
     (if \<bar>vec_x c * 0.01745329 - latitude s\<bar> > 0.00000001
         \<or> \<bar>vec_y c * 0.01745329 - longitude s\<bar> > 0.00000001
         \<or> timezone s \<noteq> (case tz of None \<Rightarrow> timezone s
                              | Some v \<Rightarrow> if v = 0 then timezone s else \<lfloor>v\<rfloor>)
      then updateDynamic h (updateStatic h
             (s\<lparr> latitude := vec_x c * 0.01745329, longitude := vec_y c * 0.01745329,
                 altitude := 0,
                 timezone := (case tz of None \<Rightarrow> timezone s
                              | Some v \<Rightarrow> if v = 0 then timezone s else \<lfloor>v\<rfloor>),
                 latitude_trig := trig_of (vec_x c * 0.01745329) \<rparr>))
      else s)
   \<and> (fst (setLocation h s c tz) \<noteq> s \<longrightarrow> altitude (fst (setLocation h s c tz)) = 0)"
  using assms by (auto simp add: setLocation_def Let_def)

text \<open>On the engine at 100 m: the same place without \<open>z\<close> leaves the engine, and its
  altitude of 100, as they are; one degree further north the engine recomputes and
  the altitude is 0.\<close>

theorem setLocation_without_z_witness:
  "fst (setLocation utc_host engine45_100m \<lparr> vec_x = 45, vec_y = 0, vec_z = None \<rparr> None)
     = engine45_100m
   \<and> altitude (fst (setLocation utc_host engine45_100m
                      \<lparr> vec_x = 45, vec_y = 0, vec_z = None \<rparr> None)) = 100
   \<and> altitude (fst (setLocation utc_host engine45_100m
                      \<lparr> vec_x = 46, vec_y = 0, vec_z = None \<rparr> None)) = 0"
proof -
  have same: "fst (setLocation utc_host engine45_100m
                    \<lparr> vec_x = 45, vec_y = 0, vec_z = None \<rparr> None) = engine45_100m"
    using setLocation_without_z [of "\<lparr> vec_x = 45, vec_y = 0, vec_z = None \<rparr>"
                                     utc_host engine45_100m None]
    by (simp add: engine45_100m_fields)
  have moved: "altitude (fst (setLocation utc_host engine45_100m
                    \<lparr> vec_x = 46, vec_y = 0, vec_z = None \<rparr> None)) = 0"
    using setLocation_without_z [of "\<lparr> vec_x = 46, vec_y = 0, vec_z = None \<rparr>"
                                     utc_host engine45_100m None]
    by (simp add: engine45_100m_fields)
  show ?thesis using same moved by (simp add: engine45_100m_fields)
qed

section \<open>getCoordinates\<close>




end
